theory Spec2Isabelle
  imports Main
begin

section \<open>Strings\<close>

text \<open>
  A Go string is a sequence of bytes. \<open>strings.TrimSpace\<close> removes the white space of
  Unicode from both ends; \<open>spaceRunes\<close> lists the UTF-8 encodings of the code points
  that \<open>unicode.IsSpace\<close> accepts: the six ASCII ones, U+0085, U+00A0, U+1680, U+2000 to
  U+200A, U+2028, U+2029, U+202F, U+205F and U+3000.
\<close>

definition spaceRunes :: "string list" where
  "spaceRunes =
     [[CHR 0x09], [CHR 0x0A], [CHR 0x0B], [CHR 0x0C], [CHR 0x0D], [CHR 0x20],
      [CHR 0xC2, CHR 0x85], [CHR 0xC2, CHR 0xA0], [CHR 0xE1, CHR 0x9A, CHR 0x80],
      [CHR 0xE2, CHR 0x80, CHR 0x80], [CHR 0xE2, CHR 0x80, CHR 0x81],
      [CHR 0xE2, CHR 0x80, CHR 0x82], [CHR 0xE2, CHR 0x80, CHR 0x83],
      [CHR 0xE2, CHR 0x80, CHR 0x84], [CHR 0xE2, CHR 0x80, CHR 0x85],
      [CHR 0xE2, CHR 0x80, CHR 0x86], [CHR 0xE2, CHR 0x80, CHR 0x87],
      [CHR 0xE2, CHR 0x80, CHR 0x88], [CHR 0xE2, CHR 0x80, CHR 0x89],
      [CHR 0xE2, CHR 0x80, CHR 0x8A], [CHR 0xE2, CHR 0x80, CHR 0xA8],
      [CHR 0xE2, CHR 0x80, CHR 0xA9], [CHR 0xE2, CHR 0x80, CHR 0xAF],
      [CHR 0xE2, CHR 0x81, CHR 0x9F], [CHR 0xE3, CHR 0x80, CHR 0x80]]"

definition HasPrefix :: "string \<Rightarrow> string \<Rightarrow> bool" where
  "HasPrefix s p = (take (length p) s = p)"

definition HasSuffix :: "string \<Rightarrow> string \<Rightarrow> bool" where
  "HasSuffix s p = (length p \<le> length s \<and> drop (length s - length p) s = p)"

text \<open>The length of the white-space rune at the start, or at the end, of a string; 0 if none.\<close>

definition spaceFirst :: "string \<Rightarrow> nat" where
  "spaceFirst s = (case find (HasPrefix s) spaceRunes of None \<Rightarrow> 0 | Some p \<Rightarrow> length p)"

definition spaceLast :: "string \<Rightarrow> nat" where
  "spaceLast s = (case find (HasSuffix s) spaceRunes of None \<Rightarrow> 0 | Some p \<Rightarrow> length p)"

function TrimLeftSpace :: "string \<Rightarrow> string" where
  "TrimLeftSpace s = (if spaceFirst s = 0 then s else TrimLeftSpace (drop (spaceFirst s) s))"
  by pat_completeness auto
termination
proof (relation "measure length")
  show "wf (measure length)" by simp
next
  fix s :: string
  assume a: "spaceFirst s \<noteq> 0"
  have "spaceFirst [] = 0"
    by (simp add: spaceFirst_def spaceRunes_def HasPrefix_def)
  with a have "s \<noteq> []" by auto
  with a show "(drop (spaceFirst s) s, s) \<in> measure length" by simp
qed

function TrimRightSpace :: "string \<Rightarrow> string" where
  "TrimRightSpace s =
     (if spaceLast s = 0 then s else TrimRightSpace (take (length s - spaceLast s) s))"
  by pat_completeness auto
termination
proof (relation "measure length")
  show "wf (measure length)" by simp
next
  fix s :: string
  assume a: "spaceLast s \<noteq> 0"
  have "spaceLast [] = 0"
    by (simp add: spaceLast_def spaceRunes_def HasSuffix_def)
  with a have "s \<noteq> []" by auto
  with a show "(take (length s - spaceLast s) s, s) \<in> measure length" by simp
qed

declare TrimLeftSpace.simps [simp del]
declare TrimRightSpace.simps [simp del]

definition TrimSpace :: "string \<Rightarrow> string" where
  "TrimSpace s = TrimRightSpace (TrimLeftSpace s)"

definition TrimSuffix :: "string \<Rightarrow> string \<Rightarrow> string" where
  "TrimSuffix s p = (if HasSuffix s p then take (length s - length p) s else s)"

fun Contains :: "string \<Rightarrow> string \<Rightarrow> bool" where
  "Contains [] sub = (sub = [])"
| "Contains (c # s) sub = (HasPrefix (c # s) sub \<or> Contains s sub)"

text \<open>\<open>strings.Split(s, sep)[0]\<close> for a one-byte separator: the text before its first occurrence.\<close>

definition SplitFirst :: "string \<Rightarrow> char \<Rightarrow> string" where
  "SplitFirst s sep = takeWhile (\<lambda>c. c \<noteq> sep) s"

section \<open>Short codes: base-62 encoding\<close>

text \<open>The alphabet constant of the URL service; a digit is an index into it.\<close>

definition base62Chars :: string where
  "base62Chars = ''0123456789abcdefghijklmnopqrstuvwxyzABCDEFGHIJKLMNOPQRSTUVWXYZ''"

text \<open>
  \<open>encodeBase62\<close> takes an \<open>int64\<close>. Its first loop runs while \<open>num > 0\<close>, so it only
  ever divides a positive number, where Go's truncating \<open>/\<close> and \<open>%\<close> agree with
  \<open>div\<close> and \<open>mod\<close>; the argument is therefore an \<open>int\<close>. The accumulator is the
  \<open>strings.Builder\<close>, which receives the least significant digit first.
\<close>

function encodeLoop :: "int \<Rightarrow> string \<Rightarrow> string" where
  "encodeLoop num result =
     (if num > 0
      then encodeLoop (num div 62) (result @ [base62Chars ! nat (num mod 62)])
      else result)"
  by pat_completeness auto
termination
  by (relation "measure (\<lambda>(num, result). nat num)") auto

declare encodeLoop.simps [simp del]

text \<open>
  The in-place reversal: indices \<open>i\<close> and \<open>j\<close> walk towards each other and the two
  runes are swapped while \<open>i < j\<close>. Both indices stay inside the slice whenever the
  loop body runs.
\<close>

function reverseRunes :: "int \<Rightarrow> int \<Rightarrow> string \<Rightarrow> string" where
  "reverseRunes i j runes =
     (if i < j
      then reverseRunes (i + 1) (j - 1)
             (runes[nat i := runes ! nat j, nat j := runes ! nat i])
      else runes)"
  by pat_completeness auto
termination
  by (relation "measure (\<lambda>(i, j, runes). nat (j - i))") auto

declare reverseRunes.simps [simp del]

definition encodeBase62 :: "int \<Rightarrow> string" where
  "encodeBase62 num =
     (if num = 0 then [base62Chars ! 0]
      else (let result = encodeLoop num []
            in reverseRunes 0 (int (length result) - 1) result))"

text \<open>
  The reference decoder: the position of a character in the alphabet is its digit value,
  and the digits are read most significant first (Horner's scheme).
\<close>

fun indexOf :: "char \<Rightarrow> string \<Rightarrow> nat" where
  "indexOf c [] = 0"
| "indexOf c (x # xs) = (if x = c then 0 else Suc (indexOf c xs))"

definition decodeBase62 :: "string \<Rightarrow> int" where
  "decodeBase62 s = foldl (\<lambda>acc c. acc * 62 + int (indexOf c base62Chars)) 0 s"

text \<open>The base-62 digits of a positive number, least significant first.\<close>

function digitsLSD :: "int \<Rightarrow> string" where
  "digitsLSD n = (if n > 0 then base62Chars ! nat (n mod 62) # digitsLSD (n div 62) else [])"
  by pat_completeness auto
termination
  by (relation "measure nat") auto

declare digitsLSD.simps [simp del]

section \<open>The shared cache\<close>

text \<open>
  Time is counted in whole seconds. The Redis server behind the client is a map from a
  key to its value and the instant at which the key expires; a key whose instant has
  been reached is gone. Every call reaches the server or fails, which the caller of the
  model decides through the flag \<open>up\<close>; a failed call leaves the server as it was.
\<close>

type_synonym time = nat

datatype redis_error = RedisNil | RedisDown

record RedisCache =
  client :: "string \<rightharpoonup> string \<times> time"
  ttl :: time

definition NewRedisCache :: RedisCache where
  "NewRedisCache = \<lparr>client = Map.empty, ttl = 24 * 3600\<rparr>"

definition cache_Get :: "bool \<Rightarrow> time \<Rightarrow> RedisCache \<Rightarrow> string \<Rightarrow> redis_error + string" where
  "cache_Get up now c key =
     (if \<not> up then Inl RedisDown
      else case client c key of
             None \<Rightarrow> Inl RedisNil
           | Some (v, expiry) \<Rightarrow> if now < expiry then Inr v else Inl RedisNil)"

definition cache_SetWithTTL ::
  "bool \<Rightarrow> time \<Rightarrow> RedisCache \<Rightarrow> string \<Rightarrow> string \<Rightarrow> time \<Rightarrow> redis_error option \<times> RedisCache" where
  "cache_SetWithTTL up now c key v t =
     (if \<not> up then (Some RedisDown, c)
      else (None, c\<lparr>client := (client c)(key \<mapsto> (v, now + t))\<rparr>))"

definition cache_Set ::
  "bool \<Rightarrow> time \<Rightarrow> RedisCache \<Rightarrow> string \<Rightarrow> string \<Rightarrow> redis_error option \<times> RedisCache" where
  "cache_Set up now c key v = cache_SetWithTTL up now c key v (ttl c)"

section \<open>Decimal integers: \<open>Sprintf("%d")\<close> and \<open>Sscanf("%d")\<close>\<close>

text \<open>Go's \<open>int\<close> on a 64-bit platform: arithmetic wraps around silently.\<close>

definition int64 :: "int \<Rightarrow> int" where
  "int64 x = (x + 2 ^ 63) mod 2 ^ 64 - 2 ^ 63"

definition digitChar :: "nat \<Rightarrow> char" where
  "digitChar d = char_of (48 + d)"

definition byte :: "char \<Rightarrow> nat" where
  "byte c = of_char c"

definition isDigit :: "char \<Rightarrow> bool" where
  "isDigit c = (byte CHR ''0'' \<le> byte c \<and> byte c \<le> byte CHR ''9'')"

definition digitVal :: "char \<Rightarrow> nat" where
  "digitVal c = byte c - byte CHR ''0''"

function formatNat :: "nat \<Rightarrow> string" where
  "formatNat n = (if n < 10 then [digitChar n] else formatNat (n div 10) @ [digitChar (n mod 10)])"
  by pat_completeness auto
termination
  by (relation "measure id") auto

declare formatNat.simps [simp del]

definition Sprintf_d :: "int \<Rightarrow> string" where
  "Sprintf_d i = (if i < 0 then CHR ''-'' # formatNat (nat (- i)) else formatNat (nat i))"

text \<open>
  \<open>fmt.Sscanf(s, "%d", &count)\<close>. The white space of Unicode before the number is
  skipped, but a newline there is an error. Then one sign is accepted, and the token is
  the longest run of decimal digits, which must not be empty; what follows the token is
  not read. \<open>strconv.ParseInt\<close> rejects a value outside \<open>int64\<close>. On every error the
  scan stores nothing and the variable keeps its value.
\<close>

function SkipSpace :: "string \<Rightarrow> string option" where
  "SkipSpace s =
     (if HasPrefix s [CHR 0x0A] then None
      else if spaceFirst s = 0 then Some s
      else SkipSpace (drop (spaceFirst s) s))"
  by pat_completeness auto
termination
proof (relation "measure length")
  show "wf (measure length)" by simp
next
  fix s :: string
  assume a: "spaceFirst s \<noteq> 0"
  have "spaceFirst [] = 0"
    by (simp add: spaceFirst_def spaceRunes_def HasPrefix_def)
  with a have "s \<noteq> []" by auto
  with a show "(drop (spaceFirst s) s, s) \<in> measure length" by simp
qed

declare SkipSpace.simps [simp del]

definition parseDigits :: "string \<Rightarrow> nat" where
  "parseDigits tok = foldl (\<lambda>a c. 10 * a + digitVal c) 0 tok"

definition scanInt :: "string \<Rightarrow> int option" where
  "scanInt s =
     (case SkipSpace s of
        None \<Rightarrow> None
      | Some rest \<Rightarrow>
          (let neg = (rest \<noteq> [] \<and> hd rest = CHR ''-'');
               rest' = (if rest \<noteq> [] \<and> (hd rest = CHR ''+'' \<or> hd rest = CHR ''-'')
                        then tl rest else rest);
               tok = takeWhile isDigit rest'
           in if tok = [] then None
              else let v = (if neg then - int (parseDigits tok) else int (parseDigits tok))
                   in if - (2 ^ 63) \<le> v \<and> v < 2 ^ 63 then Some v else None))"

definition Sscanf_d :: "string \<Rightarrow> int \<Rightarrow> int" where
  "Sscanf_d s count = (case scanInt s of None \<Rightarrow> count | Some v \<Rightarrow> v)"

section \<open>The rate limiter\<close>

definition maxRequests :: int where
  "maxRequests = 100"

definition timeWindow :: time where
  "timeWindow = 60"

text \<open>
  What the middleware does with the request: \<open>Next\<close> hands it on to the rest of the
  chain, \<open>TooManyRequests\<close> answers 429 and aborts the chain.
\<close>

datatype verdict = Next | TooManyRequests

text \<open>
  One request of the client with address \<open>clientIP\<close> at time \<open>now\<close>; \<open>getUp\<close> and
  \<open>setUp\<close> say whether the read and the write reach the server. \<open>count\<close> starts as
  Go's zero value.
\<close>

definition RateLimitMiddleware ::
  "bool \<Rightarrow> bool \<Rightarrow> time \<Rightarrow> RedisCache \<Rightarrow> string \<Rightarrow> verdict \<times> RedisCache" where
  "RateLimitMiddleware getUp setUp now cache clientIP =
     (let key = ''rate_limit:'' @ clientIP
      in case cache_Get getUp now cache key of
           Inl err \<Rightarrow>
             (case cache_SetWithTTL setUp now cache key ''1'' timeWindow of
                (Some e, cache') \<Rightarrow> (Next, cache')
              | (None, cache') \<Rightarrow> (Next, cache'))
         | Inr countStr \<Rightarrow>
             (let count = int64 (Sscanf_d countStr 0 + 1)
              in if count > maxRequests then (TooManyRequests, cache)
                 else case cache_SetWithTTL setUp now cache key (Sprintf_d count) timeWindow of
                        (Some e, cache') \<Rightarrow> (Next, cache')
                      | (None, cache') \<Rightarrow> (Next, cache')))"

text \<open>
  Sequential requests of one client at the given times, every cache call succeeding:
  the verdicts in order and the cache in the end.
\<close>

fun serve :: "RedisCache \<Rightarrow> string \<Rightarrow> time list \<Rightarrow> verdict list \<times> RedisCache" where
  "serve cache clientIP [] = ([], cache)"
| "serve cache clientIP (now # ts) =
     (case RateLimitMiddleware True True now cache clientIP of
        (v, cache') \<Rightarrow> (case serve cache' clientIP ts of (vs, cache'') \<Rightarrow> (v # vs, cache'')))"

section \<open>The persisted data and the database\<close>

text \<open>
  The structs of package \<open>models\<close>. Field names that two structs share carry the
  struct's initial. \<open>time.Time\<close> is an instant in seconds, its zero value 0.
\<close>

record URL =
  ID :: int
  ShortCode :: string
  OriginalURL :: string
  CustomAlias :: bool
  CreatedAt :: time
  ExpiresAt :: "time option"

record Analytics =
  a_ID :: int
  a_ShortCode :: string
  ClickedAt :: time
  IPAddress :: string
  UserAgent :: string

text \<open>
  The PostgreSQL database of the migrations: the two tables, the serial counters of their
  \<open>id\<close> columns and the sequence \<open>url_id_sequence\<close> (its last value; it starts with 1).
\<close>

record database =
  urls :: "URL list"
  urls_id_seq :: int
  analytics :: "Analytics list"
  analytics_id_seq :: int
  url_id_sequence :: int

definition emptyDB :: database where
  "emptyDB = \<lparr>urls = [], urls_id_seq = 0, analytics = [], analytics_id_seq = 0, url_id_sequence = 0\<rparr>"

section \<open>The analytics pipeline\<close>

record AnalyticsEvent =
  e_ShortCode :: string
  e_IPAddress :: string
  e_UserAgent :: string
  Timestamp :: time

text \<open>
  The service: the buffered channel \<open>eventQueue\<close> with its capacity, the batch size and
  the flush interval, and what the logger has received.
\<close>

record AnalyticsService =
  eventQueue :: "AnalyticsEvent list"
  queueCap :: nat
  batchSize :: nat
  flushInterval :: time
  logged :: "string list"

definition NewAnalyticsService :: AnalyticsService where
  "NewAnalyticsService =
     \<lparr>eventQueue = [], queueCap = 10000, batchSize = 100, flushInterval = 5, logged = []\<rparr>"

text \<open>
  \<open>net.ParseIP\<close> belongs to Go's standard library; whether it accepts a string is the
  parameter \<open>parseIP\<close> of the model.
\<close>

definition sanitizeIPAddress :: "(string \<Rightarrow> bool) \<Rightarrow> string \<Rightarrow> string" where
  "sanitizeIPAddress parseIP ipAddress =
     (let ipAddress' = (if Contains ipAddress '','' then TrimSpace (SplitFirst ipAddress CHR '','')
                        else ipAddress)
      in if \<not> parseIP ipAddress' then ''unknown'' else ipAddress')"

definition sanitizeUserAgent :: "string \<Rightarrow> string" where
  "sanitizeUserAgent userAgent =
     (let maxLength = 500;
          userAgent' = (if length userAgent > maxLength then take maxLength userAgent else userAgent);
          userAgent'' = TrimSpace userAgent'
      in if userAgent'' = [] then ''unknown'' else userAgent'')"

text \<open>
  \<open>RecordClickAsync\<close> at time \<open>now\<close>. The \<open>select\<close> with a \<open>default\<close> branch sends when
  the channel has room and otherwise takes the default branch at once. The function has
  no result: all it does is done to the service.
\<close>

definition RecordClickAsync ::
  "(string \<Rightarrow> bool) \<Rightarrow> time \<Rightarrow> AnalyticsService \<Rightarrow> string \<Rightarrow> string \<Rightarrow> string \<Rightarrow> AnalyticsService" where
  "RecordClickAsync parseIP now s shortCode ipAddress userAgent =
     (let event = \<lparr>e_ShortCode = shortCode,
                   e_IPAddress = sanitizeIPAddress parseIP ipAddress,
                   e_UserAgent = sanitizeUserAgent userAgent,
                   Timestamp = now\<rparr>
      in if length (eventQueue s) < queueCap s
         then s\<lparr>eventQueue := eventQueue s @ [event]\<rparr>
         else s\<lparr>logged := logged s @ [''Analytics queue full, dropping click event'']\<rparr>)"

text \<open>The event that a click (time, code, address, user agent) is captured as.\<close>

definition eventOf :: "(string \<Rightarrow> bool) \<Rightarrow> time \<times> string \<times> string \<times> string \<Rightarrow> AnalyticsEvent" where
  "eventOf parseIP click =
     (case click of (now, shortCode, ipAddress, userAgent) \<Rightarrow>
        \<lparr>e_ShortCode = shortCode,
         e_IPAddress = sanitizeIPAddress parseIP ipAddress,
         e_UserAgent = sanitizeUserAgent userAgent,
         Timestamp = now\<rparr>)"

text \<open>A burst of clicks captured one after the other.\<close>

fun captureAll ::
  "(string \<Rightarrow> bool) \<Rightarrow> AnalyticsService \<Rightarrow> (time \<times> string \<times> string \<times> string) list \<Rightarrow> AnalyticsService" where
  "captureAll parseIP s [] = s"
| "captureAll parseIP s ((now, shortCode, ipAddress, userAgent) # clicks) =
     captureAll parseIP (RecordClickAsync parseIP now s shortCode ipAddress userAgent) clicks"

text \<open>
  \<open>AnalyticsRepository.RecordClick\<close> at time \<open>now\<close>. The statement inserts the short code,
  the address and the user agent only; \<open>id\<close> and \<open>clicked_at\<close> are the column defaults,
  the next serial number and \<open>CURRENT_TIMESTAMP\<close>, which \<open>RETURNING\<close> scans back into the
  struct. Whether the database takes the row (it is reachable, the short code exists in
  \<open>urls\<close>, the values fit the column types) is the flag \<open>accepted\<close>.
\<close>

definition RecordClick :: "bool \<Rightarrow> time \<Rightarrow> database \<Rightarrow> Analytics \<Rightarrow> bool \<times> Analytics \<times> database" where
  "RecordClick accepted now db a =
     (if accepted
      then (let a' = a\<lparr>a_ID := analytics_id_seq db + 1, ClickedAt := now\<rparr>
            in (True, a', db\<lparr>analytics := analytics db @ [a'], analytics_id_seq := analytics_id_seq db + 1\<rparr>))
      else (False, a, db))"

text \<open>
  \<open>flushBatch\<close>: every record of the batch is written, a failure is logged and the loop
  goes on. \<open>accepts\<close> says which records the database takes.
\<close>

fun flushBatch ::
  "(Analytics \<Rightarrow> bool) \<Rightarrow> time \<Rightarrow> AnalyticsService \<times> database \<Rightarrow> Analytics list \<Rightarrow> AnalyticsService \<times> database" where
  "flushBatch accepts now (s, db) [] = (s, db)"
| "flushBatch accepts now (s, db) (a # batch) =
     (case RecordClick (accepts a) now db a of
        (True, a', db') \<Rightarrow> flushBatch accepts now (s, db') batch
      | (False, a', db') \<Rightarrow>
          flushBatch accepts now (s\<lparr>logged := logged s @ [''Failed to record click in batch'']\<rparr>, db') batch)"

text \<open>
  One turn of the loop of \<open>processEvents\<close> at time \<open>now\<close>, for the branch of the
  \<open>select\<close> that fires: an event received from the queue, or a tick of the timer. The
  state of the worker is its batch.
\<close>

datatype wake = Received | Tick

fun processEvents ::
  "(Analytics \<Rightarrow> bool) \<Rightarrow> time \<Rightarrow> wake \<Rightarrow> AnalyticsService \<times> Analytics list \<times> database
     \<Rightarrow> AnalyticsService \<times> Analytics list \<times> database" where
  "processEvents accepts now Received (s, batch, db) =
     (case eventQueue s of
        [] \<Rightarrow> (s, batch, db)
      | event # queue \<Rightarrow>
          (let analytics = \<lparr>a_ID = 0, a_ShortCode = e_ShortCode event, ClickedAt = 0,
                            IPAddress = e_IPAddress event, UserAgent = e_UserAgent event\<rparr>;
               batch' = batch @ [analytics];
               s' = s\<lparr>eventQueue := queue\<rparr>
           in if length batch' \<ge> batchSize s
              then (case flushBatch accepts now (s', db) batch' of (s'', db') \<Rightarrow> (s'', [], db'))
              else (s', batch', db)))"
| "processEvents accepts now Tick (s, batch, db) =
     (if length batch > 0
      then (case flushBatch accepts now (s, db) batch of (s', db') \<Rightarrow> (s', [], db'))
      else (s, batch, db))"

section \<open>The router\<close>

text \<open>
  The handler functions that \<open>main\<close> and \<open>setupRoutes\<close> hand to Gin, by name.
\<close>

datatype HandlerFunc =
    H_Recovery | H_LoggerMiddleware | H_CORSMiddleware | H_SecurityMiddleware
  | H_RateLimitMiddleware
  | H_HealthCheck | H_MetricsHandler | H_ShortenURL | H_GetURLStats | H_RedirectURL

text \<open>
  Gin's router as far as \<open>main\<close> uses it. A group has a base path and the middleware
  registered on it so far; the engine is the root group together with the routes. \<open>Use\<close>
  appends to the middleware of the group; registering a route stores the middleware the
  group has at that moment followed by the handler; \<open>Group\<close> makes a group that starts
  with a copy of its parent's middleware. The paths joined here are clean, so joining
  them is concatenation below the root.
\<close>

record RouterGroup =
  Handlers :: "HandlerFunc list"
  basePath :: string

record RouteInfo =
  Method :: string
  Path :: string
  HandlersChain :: "HandlerFunc list"

record Engine = RouterGroup +
  trees :: "RouteInfo list"

definition gin_New :: Engine where
  "gin_New = \<lparr>Handlers = [], basePath = ''/'', trees = []\<rparr>"

definition Use :: "Engine \<Rightarrow> HandlerFunc \<Rightarrow> Engine" where
  "Use engine middleware = engine\<lparr>Handlers := Handlers engine @ [middleware]\<rparr>"

definition joinPaths :: "string \<Rightarrow> string \<Rightarrow> string" where
  "joinPaths absolutePath relativePath =
     (if relativePath = [] then absolutePath
      else if absolutePath = ''/'' then relativePath
      else absolutePath @ relativePath)"

definition Group :: "Engine \<Rightarrow> string \<Rightarrow> RouterGroup" where
  "Group engine relativePath =
     \<lparr>Handlers = Handlers engine, basePath = joinPaths (basePath engine) relativePath\<rparr>"

definition handle :: "RouterGroup \<Rightarrow> string \<Rightarrow> string \<Rightarrow> HandlerFunc \<Rightarrow> Engine \<Rightarrow> Engine" where
  "handle grp httpMethod relativePath handler engine =
     engine\<lparr>trees := trees engine @
        [\<lparr>Method = httpMethod, Path = joinPaths (basePath grp) relativePath,
          HandlersChain = Handlers grp @ [handler]\<rparr>]\<rparr>"

definition GET :: "Engine \<Rightarrow> string \<Rightarrow> HandlerFunc \<Rightarrow> Engine" where
  "GET engine relativePath handler =
     handle \<lparr>Handlers = Handlers engine, basePath = basePath engine\<rparr> ''GET'' relativePath handler engine"

definition setupRoutes :: "Engine \<Rightarrow> Engine" where
  "setupRoutes router =
     (let router1 = GET router ''/health'' H_HealthCheck;
          router2 = GET router1 ''/metrics'' H_MetricsHandler;
          api = Group router2 ''/api/v1'';
          router3 = handle api ''POST'' ''/shorten'' H_ShortenURL router2;
          router4 = handle api ''GET'' ''/urls/:short_code/stats'' H_GetURLStats router3
      in GET router4 ''/:short_code'' H_RedirectURL)"

text \<open>The router that \<open>main\<close> builds before it starts the server.\<close>

definition mainRouter :: Engine where
  "mainRouter =
     setupRoutes
       (Use (Use (Use (Use (Use gin_New H_Recovery) H_LoggerMiddleware) H_CORSMiddleware)
          H_SecurityMiddleware) H_RateLimitMiddleware)"

text \<open>
  Finding the route of a request. A path is matched segment by segment; a segment of the
  pattern that starts with a colon is a parameter and matches any segment that is not
  empty. A route without parameters that equals the path is preferred.
\<close>

fun segments :: "string \<Rightarrow> string list" where
  "segments [] = [[]]"
| "segments (c # s) =
     (if c = CHR ''/'' then [] # segments s
      else (case segments s of seg # segs \<Rightarrow> (c # seg) # segs | [] \<Rightarrow> [[c]]))"

fun matchSegments :: "string list \<Rightarrow> string list \<Rightarrow> bool" where
  "matchSegments [] [] = True"
| "matchSegments (p # ps) (s # ss) =
     ((if p \<noteq> [] \<and> hd p = CHR '':'' then s \<noteq> [] else p = s) \<and> matchSegments ps ss)"
| "matchSegments _ _ = False"

definition getRoute :: "Engine \<Rightarrow> string \<Rightarrow> string \<Rightarrow> RouteInfo option" where
  "getRoute engine httpMethod path =
     (case find (\<lambda>r. Method r = httpMethod \<and> Path r = path) (trees engine) of
        Some r \<Rightarrow> Some r
      | None \<Rightarrow> find (\<lambda>r. Method r = httpMethod \<and> matchSegments (segments (Path r)) (segments path))
                 (trees engine))"

section \<open>Go's \<open>net/url\<close>\<close>

text \<open>
  \<open>validateURL\<close> and \<open>normalizeURL\<close> rest on \<open>url.Parse\<close> and \<open>URL.String\<close> of Go's
  standard library. They are written out here after the library: the split into scheme,
  opaque part, authority, path, query and fragment, the percent-escapes, and the checks
  of port, user information, host and IPv6 zone.
\<close>

datatype encoding = encodePath | encodeUserPassword | encodeHost | encodeZone | encodeFragment

definition isAlpha :: "char \<Rightarrow> bool" where
  "isAlpha c = ((byte CHR ''a'' \<le> byte c \<and> byte c \<le> byte CHR ''z'')
              \<or> (byte CHR ''A'' \<le> byte c \<and> byte c \<le> byte CHR ''Z''))"

definition ishex :: "char \<Rightarrow> bool" where
  "ishex c = (isDigit c \<or> (byte CHR ''a'' \<le> byte c \<and> byte c \<le> byte CHR ''f'')
                       \<or> (byte CHR ''A'' \<le> byte c \<and> byte c \<le> byte CHR ''F''))"

definition unhex :: "char \<Rightarrow> nat" where
  "unhex c =
     (if isDigit c then byte c - byte CHR ''0''
      else if byte CHR ''a'' \<le> byte c \<and> byte c \<le> byte CHR ''f'' then byte c - byte CHR ''a'' + 10
      else if byte CHR ''A'' \<le> byte c \<and> byte c \<le> byte CHR ''F'' then byte c - byte CHR ''A'' + 10
      else 0)"

definition shouldEscape :: "char \<Rightarrow> encoding \<Rightarrow> bool" where
  "shouldEscape c mode =
     (if isAlpha c \<or> isDigit c then False
      else if (mode = encodeHost \<or> mode = encodeZone)
              \<and> c \<in> set (''!$&'' @ [CHR 0x27] @ ''()*+,;=:[]<>'' @ [CHR 0x22]) then False
      else if c \<in> set ''-_.~'' then False
      else if c \<in> set ''$&+,/:;=?@'' \<and> mode = encodePath then c = CHR ''?''
      else if c \<in> set ''$&+,/:;=?@'' \<and> mode = encodeUserPassword
        then c = CHR ''@'' \<or> c = CHR ''/'' \<or> c = CHR ''?'' \<or> c = CHR '':''
      else if c \<in> set ''$&+,/:;=?@'' \<and> mode = encodeFragment then False
      else if mode = encodeFragment \<and> c \<in> set ''!()*'' then False
      else True)"

text \<open>
  \<open>unescape\<close>: \<open>None\<close> is the error of a malformed escape, of an escape that a host or
  a zone may not use, or of a byte that a host cannot have.
\<close>

fun unescape :: "string \<Rightarrow> encoding \<Rightarrow> string option" where
  "unescape [] mode = Some []"
| "unescape (c # s) mode =
     (if c = CHR ''%'' then
        (case s of
           h1 # h2 # s' \<Rightarrow>
             if \<not> ishex h1 \<or> \<not> ishex h2 then None
             else if mode = encodeHost \<and> unhex h1 < 8 \<and> [h1, h2] \<noteq> ''25'' then None
             else if mode = encodeZone \<and> [h1, h2] \<noteq> ''25''
                     \<and> char_of (unhex h1 * 16 + unhex h2) \<noteq> CHR '' ''
                     \<and> shouldEscape (char_of (unhex h1 * 16 + unhex h2)) encodeHost then None
             else map_option ((#) (char_of (unhex h1 * 16 + unhex h2))) (unescape s' mode)
         | _ \<Rightarrow> None)
      else if (mode = encodeHost \<or> mode = encodeZone) \<and> byte c < 0x80 \<and> shouldEscape c mode
        then None
      else map_option ((#) c) (unescape s mode))"

definition upperhex :: string where
  "upperhex = ''0123456789ABCDEF''"

definition escape :: "string \<Rightarrow> encoding \<Rightarrow> string" where
  "escape s mode =
     concat (map (\<lambda>c. if shouldEscape c mode
                       then [CHR ''%'', upperhex ! (byte c div 16), upperhex ! (byte c mod 16)]
                       else [c]) s)"

definition validEncoded :: "string \<Rightarrow> encoding \<Rightarrow> bool" where
  "validEncoded s mode =
     list_all (\<lambda>c. c \<in> set (''!$&'' @ [CHR 0x27] @ ''()*+,;=:@[]%'') \<or> \<not> shouldEscape c mode) s"

text \<open>The parsed URL, with the fields of Go's \<open>url.URL\<close>.\<close>

record url =
  Scheme :: string
  Opaque :: string
  User :: "(string \<times> string option) option"
  Host :: string
  u_Path :: string
  RawPath :: string
  OmitHost :: bool
  ForceQuery :: bool
  RawQuery :: string
  Fragment :: string
  RawFragment :: string

definition emptyURL :: url where
  "emptyURL = \<lparr>Scheme = [], Opaque = [], User = None, Host = [], u_Path = [], RawPath = [],
                OmitHost = False, ForceQuery = False, RawQuery = [], Fragment = [],
                RawFragment = []\<rparr>"

text \<open>
  \<open>strings.ToLower\<close>. A string of ASCII bytes only has its letters \<open>A\<close> to \<open>Z\<close>
  lowered. A string with a byte outside ASCII is decoded rune by rune and mapped through
  the case tables of Unicode (\<open>strings.Map(unicode.ToLower, s)\<close>); these tables are
  Go's, and what they make of such a string is the parameter \<open>unicodeLower\<close>.
\<close>

definition ToLower :: "(string \<Rightarrow> string) \<Rightarrow> string \<Rightarrow> string" where
  "ToLower unicodeLower s =
     (if list_all (\<lambda>c. byte c < 0x80) s
      then map (\<lambda>c. if byte CHR ''A'' \<le> byte c \<and> byte c \<le> byte CHR ''Z''
                     then char_of (byte c + 32) else c) s
      else unicodeLower s)"

text \<open>\<open>strings.Cut\<close> at a one-byte separator: the text before it and the text after it.\<close>

definition Cut :: "string \<Rightarrow> char \<Rightarrow> string \<times> string" where
  "Cut s sep = (takeWhile (\<lambda>c. c \<noteq> sep) s, tl (dropWhile (\<lambda>c. c \<noteq> sep) s))"

text \<open>
  \<open>getScheme\<close>: \<open>None\<close> is the error of a missing protocol scheme; \<open>i\<close> is the index of
  the loop and \<open>rest\<close> what is left from there.
\<close>

fun getSchemeLoop :: "nat \<Rightarrow> string \<Rightarrow> string \<Rightarrow> (string \<times> string) option" where
  "getSchemeLoop i rawURL [] = Some ([], rawURL)"
| "getSchemeLoop i rawURL (c # rest) =
     (if isAlpha c then getSchemeLoop (i + 1) rawURL rest
      else if isDigit c \<or> c = CHR ''+'' \<or> c = CHR ''-'' \<or> c = CHR ''.''
        then (if i = 0 then Some ([], rawURL) else getSchemeLoop (i + 1) rawURL rest)
      else if c = CHR '':''
        then (if i = 0 then None else Some (take i rawURL, rest))
      else Some ([], rawURL))"

definition getScheme :: "string \<Rightarrow> (string \<times> string) option" where
  "getScheme rawURL = getSchemeLoop 0 rawURL rawURL"

definition validOptionalPort :: "string \<Rightarrow> bool" where
  "validOptionalPort port =
     (case port of [] \<Rightarrow> True | c # ds \<Rightarrow> c = CHR '':'' \<and> list_all isDigit ds)"

definition validUserinfo :: "string \<Rightarrow> bool" where
  "validUserinfo s =
     list_all (\<lambda>r. isAlpha r \<or> isDigit r \<or> r \<in> set (''-._:~!$&'' @ [CHR 0x27] @ ''()*+,;=%@'')) s"

text \<open>The text from the last occurrence of a byte on, if it occurs.\<close>

definition fromLast :: "string \<Rightarrow> char \<Rightarrow> string option" where
  "fromLast s sep =
     (if sep \<in> set s then Some (sep # rev (takeWhile (\<lambda>c. c \<noteq> sep) (rev s))) else None)"

text \<open>\<open>strings.Index\<close>: where a substring first occurs, if it does.\<close>

fun Index :: "string \<Rightarrow> string \<Rightarrow> nat option" where
  "Index [] sub = (if sub = [] then Some 0 else None)"
| "Index (c # s) sub =
     (if HasPrefix (c # s) sub then Some 0 else map_option Suc (Index s sub))"

text \<open>
  \<open>parseHost\<close>. In a bracketed literal \<open>i\<close> is the index of the last \<open>]\<close>; a \<open>%25\<close>
  before it starts the zone, which is unescaped by the rule of zones, the parts around it
  by the rule of hosts.
\<close>

definition parseHost :: "string \<Rightarrow> string option" where
  "parseHost host =
     (if HasPrefix host ''[''
      then (case fromLast host CHR '']'' of
              None \<Rightarrow> None
            | Some bracket \<Rightarrow>
                if \<not> validOptionalPort (tl bracket) then None
                else (let i = length host - length bracket
                      in case Index (take i host) ''%25'' of
                           Some zone \<Rightarrow>
                             (case (unescape (take zone host) encodeHost,
                                    unescape (drop zone (take i host)) encodeZone,
                                    unescape (drop i host) encodeHost) of
                                (Some host1, Some host2, Some host3) \<Rightarrow> Some (host1 @ host2 @ host3)
                              | _ \<Rightarrow> None)
                         | None \<Rightarrow> unescape host encodeHost))
      else (case fromLast host CHR '':'' of
              None \<Rightarrow> unescape host encodeHost
            | Some colonPort \<Rightarrow>
                if \<not> validOptionalPort colonPort then None else unescape host encodeHost))"

definition parseAuthority :: "string \<Rightarrow> ((string \<times> string option) option \<times> string) option" where
  "parseAuthority authority =
     (case fromLast authority CHR ''@'' of
        None \<Rightarrow> map_option (Pair None) (parseHost authority)
      | Some atHost \<Rightarrow>
          (case parseHost (tl atHost) of
             None \<Rightarrow> None
           | Some host \<Rightarrow>
               (let userinfo = take (length authority - length atHost) authority
                in if \<not> validUserinfo userinfo then None
                   else if \<not> Contains userinfo '':''
                     then (case unescape userinfo encodeUserPassword of
                             None \<Rightarrow> None
                           | Some username \<Rightarrow> Some (Some (username, None), host))
                   else (case (unescape (fst (Cut userinfo CHR '':'')) encodeUserPassword,
                               unescape (snd (Cut userinfo CHR '':'')) encodeUserPassword) of
                           (Some username, Some password) \<Rightarrow>
                             Some (Some (username, Some password), host)
                         | _ \<Rightarrow> None))))"

definition setPath :: "url \<Rightarrow> string \<Rightarrow> url option" where
  "setPath u p =
     (case unescape p encodePath of
        None \<Rightarrow> None
      | Some path \<Rightarrow>
          Some (u\<lparr>u_Path := path, RawPath := (if p = escape path encodePath then [] else p)\<rparr>))"

definition setFragment :: "url \<Rightarrow> string \<Rightarrow> url option" where
  "setFragment u f =
     (case unescape f encodeFragment of
        None \<Rightarrow> None
      | Some frag \<Rightarrow>
          Some (u\<lparr>Fragment := frag,
                  RawFragment := (if f = escape frag encodeFragment then [] else f)\<rparr>))"

definition stringContainsCTLByte :: "string \<Rightarrow> bool" where
  "stringContainsCTLByte s = list_ex (\<lambda>b. byte b < 0x20 \<or> byte b = 0x7F) s"

text \<open>\<open>parse(rawURL, viaRequest)\<close> with \<open>viaRequest\<close> false, as \<open>url.Parse\<close> calls it.\<close>

definition parse :: "(string \<Rightarrow> string) \<Rightarrow> string \<Rightarrow> url option" where
  "parse unicodeLower rawURL =
     (if stringContainsCTLByte rawURL then None
      else if rawURL = ''*'' then Some (emptyURL\<lparr>u_Path := ''*''\<rparr>)
      else case getScheme rawURL of
        None \<Rightarrow> None
      | Some (scheme, rest0) \<Rightarrow>
          (let u0 = emptyURL\<lparr>Scheme := ToLower unicodeLower scheme\<rparr>;
               forceQuery = (HasSuffix rest0 ''?'' \<and> length (filter (\<lambda>c. c = CHR ''?'') rest0) = 1);
               rest1 = (if forceQuery then butlast rest0 else fst (Cut rest0 CHR ''?''));
               u1 = u0\<lparr>ForceQuery := forceQuery,
                       RawQuery := (if forceQuery then [] else snd (Cut rest0 CHR ''?''))\<rparr>
           in if \<not> HasPrefix rest1 ''/'' \<and> Scheme u1 \<noteq> [] then Some (u1\<lparr>Opaque := rest1\<rparr>)
              else if \<not> HasPrefix rest1 ''/'' \<and> Contains (fst (Cut rest1 CHR ''/'')) '':'' then None
              else if (Scheme u1 \<noteq> [] \<or> \<not> HasPrefix rest1 ''///'') \<and> HasPrefix rest1 ''//''
                then (let authority = takeWhile (\<lambda>c. c \<noteq> CHR ''/'') (drop 2 rest1);
                          rest2 = dropWhile (\<lambda>c. c \<noteq> CHR ''/'') (drop 2 rest1)
                      in case parseAuthority authority of
                           None \<Rightarrow> None
                         | Some (user, host) \<Rightarrow> setPath (u1\<lparr>User := user, Host := host\<rparr>) rest2)
              else if Scheme u1 \<noteq> [] \<and> HasPrefix rest1 ''/''
                then setPath (u1\<lparr>OmitHost := True\<rparr>) rest1
              else setPath u1 rest1))"

definition url_Parse :: "(string \<Rightarrow> string) \<Rightarrow> string \<Rightarrow> url option" where
  "url_Parse unicodeLower rawURL =
     (case parse unicodeLower (fst (Cut rawURL CHR ''#'')) of
        None \<Rightarrow> None
      | Some u \<Rightarrow>
          if snd (Cut rawURL CHR ''#'') = [] then Some u
          else setFragment u (snd (Cut rawURL CHR ''#'')))"

definition EscapedPath :: "url \<Rightarrow> string" where
  "EscapedPath u =
     (if RawPath u \<noteq> [] \<and> validEncoded (RawPath u) encodePath
         \<and> unescape (RawPath u) encodePath = Some (u_Path u) then RawPath u
      else if u_Path u = ''*'' then ''*''
      else escape (u_Path u) encodePath)"

definition EscapedFragment :: "url \<Rightarrow> string" where
  "EscapedFragment u =
     (if RawFragment u \<noteq> [] \<and> validEncoded (RawFragment u) encodeFragment
         \<and> unescape (RawFragment u) encodeFragment = Some (Fragment u) then RawFragment u
      else escape (Fragment u) encodeFragment)"

definition Userinfo_String :: "string \<times> string option \<Rightarrow> string" where
  "Userinfo_String ui =
     (case ui of (username, password) \<Rightarrow>
        escape username encodeUserPassword @
        (case password of None \<Rightarrow> [] | Some p \<Rightarrow> '':'' @ escape p encodeUserPassword))"

definition url_String :: "url \<Rightarrow> string" where
  "url_String u =
     (let buf0 = (if Scheme u \<noteq> [] then Scheme u @ '':'' else []);
          buf1 =
            (if Opaque u \<noteq> [] then buf0 @ Opaque u
             else
               (let buf2 =
                      (if Scheme u \<noteq> [] \<or> Host u \<noteq> [] \<or> User u \<noteq> None
                       then (if OmitHost u \<and> Host u = [] \<and> User u = None then buf0
                             else buf0
                                  @ (if Host u \<noteq> [] \<or> u_Path u \<noteq> [] \<or> User u \<noteq> None
                                     then ''//'' else [])
                                  @ (case User u of None \<Rightarrow> [] | Some ui \<Rightarrow> Userinfo_String ui @ ''@'')
                                  @ (if Host u \<noteq> [] then escape (Host u) encodeHost else []))
                       else buf0);
                    path = EscapedPath u;
                    buf3 = (if path \<noteq> [] \<and> hd path \<noteq> CHR ''/'' \<and> Host u \<noteq> []
                            then buf2 @ ''/'' else buf2);
                    buf4 = (if buf3 = [] \<and> Contains (fst (Cut path CHR ''/'')) '':''
                            then buf3 @ ''./'' else buf3)
                in buf4 @ path));
          buf5 = (if ForceQuery u \<or> RawQuery u \<noteq> [] then buf1 @ ''?'' @ RawQuery u else buf1)
      in if Fragment u \<noteq> [] then buf5 @ ''#'' @ EscapedFragment u else buf5)"

section \<open>The URL repository\<close>

text \<open>
  Every call of the repository reaches the database or fails in the driver; the caller
  of the model passes the failure, if any, as the message of its error. The calls that
  the service makes to the database and to the cache are recorded in order.
\<close>

type_synonym fault = "string option"

datatype call =
    ExistsCall string | GetNextIDCall | CreateCall string | GetByShortCodeCall string
  | CacheGetCall string | CacheSetCall string string

record world =
  w_db :: database
  w_cache :: RedisCache
  w_calls :: "call list"

definition Exists :: "fault \<Rightarrow> database \<Rightarrow> string \<Rightarrow> bool \<times> string option" where
  "Exists fault d shortCode =
     (case fault of
        Some msg \<Rightarrow> (False, Some msg)
      | None \<Rightarrow> (list_ex (\<lambda>r. ShortCode r = shortCode) (urls d), None))"

text \<open>\<open>nextval\<close> advances the sequence and returns its new value.\<close>

definition GetNextID :: "fault \<Rightarrow> database \<Rightarrow> int \<times> string option \<times> database" where
  "GetNextID fault d =
     (case fault of
        Some msg \<Rightarrow> (0, Some msg, d)
      | None \<Rightarrow> (url_id_sequence d + 1, None, d\<lparr>url_id_sequence := url_id_sequence d + 1\<rparr>))"

text \<open>
  The messages with which the driver reports that a row breaks the table definition of
  the migrations: \<open>short_code VARCHAR(10) UNIQUE NOT NULL\<close>.
\<close>

definition tooLongError :: string where
  "tooLongError = ''pq: value too long for type character varying(10)''"

definition uniqueViolation :: string where
  "uniqueViolation =
     ''pq: duplicate key value violates unique constraint '' @ [CHR 0x22]
       @ ''urls_short_code_key'' @ [CHR 0x22]"

text \<open>
  \<open>Create\<close> at time \<open>now\<close>: the insert fails when the short code is longer than the
  column or is already in the table; otherwise the row receives the next serial number
  and the current time, which are scanned back into the struct.
\<close>

definition Create :: "fault \<Rightarrow> time \<Rightarrow> database \<Rightarrow> URL \<Rightarrow> string option \<times> URL \<times> database" where
  "Create fault now d u =
     (case fault of
        Some msg \<Rightarrow> (Some msg, u, d)
      | None \<Rightarrow>
          if length (ShortCode u) > 10 then (Some tooLongError, u, d)
          else if list_ex (\<lambda>r. ShortCode r = ShortCode u) (urls d)
            then (Some uniqueViolation, u, d\<lparr>urls_id_seq := urls_id_seq d + 1\<rparr>)
          else (let u' = u\<lparr>ID := urls_id_seq d + 1, CreatedAt := now\<rparr>
                in (None, u', d\<lparr>urls := urls d @ [u'], urls_id_seq := urls_id_seq d + 1\<rparr>)))"

text \<open>
  \<open>GetByShortCode\<close>: an error, or no row (\<open>nil, nil\<close>), or the row.
\<close>

definition GetByShortCode :: "fault \<Rightarrow> database \<Rightarrow> string \<Rightarrow> string + URL option" where
  "GetByShortCode fault d shortCode =
     (case fault of
        Some msg \<Rightarrow> Inl msg
      | None \<Rightarrow> Inr (find (\<lambda>r. ShortCode r = shortCode) (urls d)))"

section \<open>The URL service\<close>

text \<open>A Go \<open>error\<close> is its message; \<open>None\<close> is \<open>nil\<close>.\<close>

definition maliciousPatterns :: "string list" where
  "maliciousPatterns = [''javascript:'', ''data:'', ''file:'', ''ftp:'']"

definition validateURL :: "(string \<Rightarrow> string) \<Rightarrow> string \<Rightarrow> string option" where
  "validateURL unicodeLower rawURL =
     (case url_Parse unicodeLower rawURL of
        None \<Rightarrow> Some ''malformed URL''
      | Some parsedURL \<Rightarrow>
          if Scheme parsedURL \<noteq> ''http'' \<and> Scheme parsedURL \<noteq> ''https''
            then Some ''only HTTP and HTTPS URLs are allowed''
          else if Host parsedURL = [] then Some ''URL must have a valid host''
          else if list_ex (Contains (ToLower unicodeLower rawURL)) maliciousPatterns
            then Some ''potentially malicious URL detected''
          else None)"

definition reserved :: "string list" where
  "reserved = [''api'', ''health'', ''admin'', ''www'', ''app'', ''short'', ''url'']"

text \<open>The regular expression \<open>^[a-zA-Z0-9_-]+$\<close>; it compiles, so its error never occurs.\<close>

definition matchAlias :: "string \<Rightarrow> bool" where
  "matchAlias alias =
     (alias \<noteq> [] \<and> list_all (\<lambda>c. isAlpha c \<or> isDigit c \<or> c = CHR ''_'' \<or> c = CHR ''-'') alias)"

definition validateCustomAlias :: "(string \<Rightarrow> string) \<Rightarrow> string \<Rightarrow> string option" where
  "validateCustomAlias unicodeLower alias =
     (if length alias < 3 \<or> length alias > 20
        then Some ''custom alias must be between 3 and 20 characters''
      else if \<not> matchAlias alias
        then Some ''custom alias can only contain letters, numbers, hyphens, and underscores''
      else if list_ex (\<lambda>word. ToLower unicodeLower alias = word) reserved
        then Some ''custom alias cannot be a reserved word''
      else None)"

text \<open>
  \<open>normalizeURL\<close> drops the error of \<open>url.Parse\<close>; on a string that does not parse it
  dereferences \<open>nil\<close> and panics, which is the result \<open>None\<close>.
\<close>

definition normalizeURL :: "(string \<Rightarrow> string) \<Rightarrow> string \<Rightarrow> string option" where
  "normalizeURL unicodeLower rawURL =
     (case url_Parse unicodeLower rawURL of
        None \<Rightarrow> None
      | Some parsedURL \<Rightarrow>
          (let parsedURL1 = (if Scheme parsedURL = [] then parsedURL\<lparr>Scheme := ''https''\<rparr>
                            else parsedURL);
               parsedURL2 = parsedURL1\<lparr>u_Path := TrimSuffix (u_Path parsedURL1) ''/''\<rparr>
           in Some (url_String parsedURL2)))"

text \<open>How a call of the service ends: with a value, with an error, or in a panic.\<close>

datatype 'a outcome = Return 'a | Error string | Panic

text \<open>
  What surrounds one call of \<open>ShortenURL\<close>: the failure of its first call to the
  database (the existence check or the sequence), what other requests do to the database
  between that call and the insert, the failure of the insert, and whether the cache is
  reachable.
\<close>

record shorten_env =
  lookupFault :: fault
  concurrent :: "database \<Rightarrow> database"
  createFault :: fault
  cacheUp :: bool

definition sequential :: shorten_env where
  "sequential = \<lparr>lookupFault = None, concurrent = (\<lambda>d. d), createFault = None, cacheUp = True\<rparr>"

text \<open>The part of \<open>ShortenURL\<close> behind the branch on the alias: insert, then fill the cache.\<close>

definition createAndCache ::
  "shorten_env \<Rightarrow> time \<Rightarrow> world \<Rightarrow> string \<Rightarrow> bool \<Rightarrow> string \<Rightarrow> URL outcome \<times> world" where
  "createAndCache env now w shortCode isCustom normalizedURL =
     (let urlRecord = \<lparr>ID = 0, ShortCode = shortCode, OriginalURL = normalizedURL,
                        CustomAlias = isCustom, CreatedAt = 0, ExpiresAt = None\<rparr>
      in case Create (createFault env) now (concurrent env (w_db w)) urlRecord of
           (Some err, urlRecord', d) \<Rightarrow>
             (Error (''failed to create URL: '' @ err),
              w\<lparr>w_db := d, w_calls := w_calls w @ [CreateCall shortCode]\<rparr>)
         | (None, urlRecord', d) \<Rightarrow>
             (case cache_Set (cacheUp env) now (w_cache w) shortCode normalizedURL of
                (err, c) \<Rightarrow>
                  (Return urlRecord',
                   w\<lparr>w_db := d, w_cache := c,
                     w_calls := w_calls w @ [CreateCall shortCode, CacheSetCall shortCode normalizedURL]\<rparr>)))"

definition ShortenURL ::
  "(string \<Rightarrow> string) \<Rightarrow> shorten_env \<Rightarrow> time \<Rightarrow> world \<Rightarrow> string \<Rightarrow> string
     \<Rightarrow> URL outcome \<times> world" where
  "ShortenURL unicodeLower env now w originalURL customAlias =
     (case validateURL unicodeLower originalURL of
        Some err \<Rightarrow> (Error (''invalid URL: '' @ err), w)
      | None \<Rightarrow>
          (case normalizeURL unicodeLower originalURL of
             None \<Rightarrow> (Panic, w)
           | Some normalizedURL \<Rightarrow>
               if customAlias \<noteq> [] then
                 (case validateCustomAlias unicodeLower customAlias of
                    Some err \<Rightarrow> (Error (''invalid custom alias: '' @ err), w)
                  | None \<Rightarrow>
                      (let w1 = w\<lparr>w_calls := w_calls w @ [ExistsCall customAlias]\<rparr>
                       in case Exists (lookupFault env) (w_db w) customAlias of
                            (exists, Some err) \<Rightarrow>
                              (Error (''failed to check alias existence: '' @ err), w1)
                          | (True, None) \<Rightarrow> (Error ''custom alias already exists'', w1)
                          | (False, None) \<Rightarrow>
                              createAndCache env now w1 customAlias True normalizedURL))
               else
                 (case GetNextID (lookupFault env) (w_db w) of
                    (nextID, Some err, d) \<Rightarrow>
                      (Error (''failed to get next ID: '' @ err),
                       w\<lparr>w_db := d, w_calls := w_calls w @ [GetNextIDCall]\<rparr>)
                  | (nextID, None, d) \<Rightarrow>
                      createAndCache env now (w\<lparr>w_db := d, w_calls := w_calls w @ [GetNextIDCall]\<rparr>)
                        (encodeBase62 nextID) False normalizedURL)))"

text \<open>
  \<open>GetOriginalURL\<close> at time \<open>now\<close>; \<open>getUp\<close> and \<open>setUp\<close> say whether the read and the
  write of the cache reach the server, \<open>dbFault\<close> is the failure of the database, if any.
\<close>

definition GetOriginalURL ::
  "bool \<Rightarrow> fault \<Rightarrow> bool \<Rightarrow> time \<Rightarrow> world \<Rightarrow> string \<Rightarrow> string outcome \<times> world" where
  "GetOriginalURL getUp dbFault setUp now w shortCode =
     (let w1 = w\<lparr>w_calls := w_calls w @ [CacheGetCall shortCode]\<rparr>
      in case cache_Get getUp now (w_cache w) shortCode of
           Inr originalURL \<Rightarrow> (Return originalURL, w1)
         | Inl err \<Rightarrow>
             (let w2 = w1\<lparr>w_calls := w_calls w1 @ [GetByShortCodeCall shortCode]\<rparr>
              in case GetByShortCode dbFault (w_db w) shortCode of
                   Inl msg \<Rightarrow> (Error (''failed to get URL: '' @ msg), w2)
                 | Inr None \<Rightarrow> (Error ''URL not found'', w2)
                 | Inr (Some urlRecord) \<Rightarrow>
                     (case cache_Set setUp now (w_cache w) shortCode (OriginalURL urlRecord) of
                        (err', c) \<Rightarrow>
                          (Return (OriginalURL urlRecord),
                           w2\<lparr>w_cache := c,
                              w_calls := w_calls w2 @ [CacheSetCall shortCode (OriginalURL urlRecord)]\<rparr>))))"

section \<open>The handler of \<open>POST /api/v1/shorten\<close>\<close>

record ShortenRequest =
  r_URL :: string
  r_CustomAlias :: string

record ShortenResponse =
  s_ShortCode :: string
  ShortURL :: string
  s_OriginalURL :: string

datatype body = ErrorJSON string | ShortenJSON ShortenResponse | NoBody

text \<open>
  The request is the JSON payload as \<open>ShouldBindJSON\<close> has bound it, or \<open>None\<close> when
  binding fails, and the value of the header \<open>X-Base-URL\<close>. A bound payload has passed
  the \<open>required,url\<close> rule of the binding, which belongs to the validator library and is
  not written out here. The response is the status code and the body. A panic of the
  service is caught by Gin's recovery middleware, which answers 500.
\<close>

definition URLHandler_ShortenURL ::
  "(string \<Rightarrow> string) \<Rightarrow> shorten_env \<Rightarrow> time \<Rightarrow> world \<Rightarrow> ShortenRequest option \<Rightarrow> string
     \<Rightarrow> (nat \<times> body) \<times> world" where
  "URLHandler_ShortenURL unicodeLower env now w request baseURLHeader =
     (case request of
        None \<Rightarrow> ((400, ErrorJSON ''Invalid request payload''), w)
      | Some req \<Rightarrow>
          (case ShortenURL unicodeLower env now w (r_URL req) (r_CustomAlias req) of
             (Error err, w') \<Rightarrow>
               if Contains err ''invalid URL'' \<or> Contains err ''invalid custom alias''
                  \<or> Contains err ''already exists''
               then ((400, ErrorJSON err), w')
               else ((500, ErrorJSON ''Failed to create short URL''), w')
           | (Panic, w') \<Rightarrow> ((500, NoBody), w')
           | (Return urlRecord, w') \<Rightarrow>
               (let baseURL = (if baseURLHeader = [] then ''http://localhost:8080'' else baseURLHeader);
                    baseURL' = TrimSuffix baseURL ''/''
                in ((201, ShortenJSON \<lparr>s_ShortCode = ShortCode urlRecord,
                                        ShortURL = baseURL' @ ''/'' @ ShortCode urlRecord,
                                        s_OriginalURL = OriginalURL urlRecord\<rparr>), w'))))"

definition emptyWorld :: world where
  "emptyWorld = \<lparr>w_db = emptyDB, w_cache = NewRedisCache, w_calls = []\<rparr>"

text \<open>
  For the examples: a row for the alias \<open>my-link\<close>, and an environment in which another
  request inserts that row between the existence check and the insert.
\<close>

definition myLinkRow :: URL where
  "myLinkRow = \<lparr>ID = 1, ShortCode = ''my-link'', OriginalURL = ''https://other.example'',
                CustomAlias = True, CreatedAt = 0, ExpiresAt = None\<rparr>"

definition racing :: shorten_env where
  "racing = sequential\<lparr>concurrent := (\<lambda>d. d\<lparr>urls := urls d @ [myLinkRow], urls_id_seq := 1\<rparr>)\<rparr>"

section \<open>Properties of the base-62 encoding\<close>


lemma length_base62Chars: "length base62Chars = 62"
  by (simp add: base62Chars_def)

lemma distinct_base62Chars: "distinct base62Chars"
  by (simp add: base62Chars_def)

lemma indexOf_nth: "distinct xs \<Longrightarrow> k < length xs \<Longrightarrow> indexOf (xs ! k) xs = k"
proof (induction xs arbitrary: k)
  case Nil
  then show ?case by simp
next
  case (Cons x xs)
  then show ?case by (cases k) auto
qed

lemma reverseRunes_length: "length (reverseRunes i j xs) = length xs"
proof (induction i j xs rule: reverseRunes.induct)
  case (1 i j runes)
  show ?case
    using "1.IH" by (subst reverseRunes.simps) simp
qed

lemma reverseRunes_nth:
  "0 \<le> i \<Longrightarrow> j < int (length xs) \<Longrightarrow> k < length xs \<Longrightarrow>
   reverseRunes i j xs ! k =
     (if i \<le> int k \<and> int k \<le> j then xs ! nat (i + j - int k) else xs ! k)"
proof (induction i j xs rule: reverseRunes.induct)
  case (1 i j runes)
  show ?case
  proof (cases "i < j")
    case False
    have "nat (i + j - int k) = k" if "i \<le> int k" "int k \<le> j"
      using that False by simp
    then show ?thesis
      using False by (subst reverseRunes.simps) simp
  next
    case True
    let ?ys = "runes[nat i := runes ! nat j, nat j := runes ! nat i]"
    have step: "reverseRunes i j runes = reverseRunes (i + 1) (j - 1) ?ys"
      using True by (subst reverseRunes.simps) simp
    have ih: "reverseRunes (i + 1) (j - 1) ?ys ! k =
        (if i + 1 \<le> int k \<and> int k \<le> j - 1
         then ?ys ! nat (i + 1 + (j - 1) - int k) else ?ys ! k)"
      using "1.IH" [OF True] "1.prems" by simp
    show ?thesis
      unfolding step ih using True "1.prems"
      by (auto simp: nth_list_update nat_eq_iff)
  qed
qed

lemma reverseRunes_rev: "reverseRunes 0 (int (length xs) - 1) xs = rev xs"
proof (rule nth_equalityI)
  show "length (reverseRunes 0 (int (length xs) - 1) xs) = length (rev xs)"
    by (simp add: reverseRunes_length)
next
  fix k
  assume "k < length (reverseRunes 0 (int (length xs) - 1) xs)"
  then have k: "k < length xs"
    by (simp add: reverseRunes_length)
  then have "nat (int (length xs) - 1 - int k) = length xs - Suc k"
    by simp
  with k show "reverseRunes 0 (int (length xs) - 1) xs ! k = rev xs ! k"
    by (simp add: reverseRunes_nth rev_nth)
qed

lemma encodeLoop_digitsLSD: "encodeLoop n acc = acc @ digitsLSD n"
proof (induction n acc rule: encodeLoop.induct)
  case (1 num result)
  show ?case
  proof (cases "num > 0")
    case True
    have "encodeLoop num result =
        encodeLoop (num div 62) (result @ [base62Chars ! nat (num mod 62)])"
      using True by (subst encodeLoop.simps) simp
    also have "\<dots> = (result @ [base62Chars ! nat (num mod 62)]) @ digitsLSD (num div 62)"
      using "1.IH" [OF True] .
    also have "\<dots> = result @ digitsLSD num"
      using True by (subst (2) digitsLSD.simps) simp
    finally show ?thesis .
  next
    case False
    then show ?thesis by (simp add: encodeLoop.simps digitsLSD.simps)
  qed
qed

lemma encodeBase62_pos: "0 < n \<Longrightarrow> encodeBase62 n = rev (digitsLSD n)"
  by (simp add: encodeBase62_def Let_def reverseRunes_rev encodeLoop_digitsLSD)

lemma encodeBase62_zero: "encodeBase62 0 = ''0''"
  by (simp add: encodeBase62_def base62Chars_def)

lemma decodeBase62_snoc:
  "decodeBase62 (s @ [c]) = decodeBase62 s * 62 + int (indexOf c base62Chars)"
  by (simp add: decodeBase62_def)

lemma indexOf_base62Chars: "k < 62 \<Longrightarrow> indexOf (base62Chars ! k) base62Chars = k"
  by (simp add: indexOf_nth distinct_base62Chars length_base62Chars)

lemma decode_digitsLSD: "0 \<le> n \<Longrightarrow> decodeBase62 (rev (digitsLSD n)) = n"
proof (induction n rule: digitsLSD.induct)
  case (1 n)
  show ?case
  proof (cases "n > 0")
    case True
    have m: "nat (n mod 62) < 62" by simp
    have "decodeBase62 (rev (digitsLSD n)) =
        decodeBase62 (rev (digitsLSD (n div 62))) * 62 + int (nat (n mod 62))"
      using True indexOf_base62Chars [OF m]
      by (subst digitsLSD.simps) (simp add: decodeBase62_snoc)
    also have "decodeBase62 (rev (digitsLSD (n div 62))) = n div 62"
      using "1.IH" [OF True] True by simp
    finally show ?thesis by simp
  next
    case False
    with "1.prems" have "n = 0" by simp
    then show ?thesis by (simp add: digitsLSD.simps decodeBase62_def)
  qed
qed

lemma set_digitsLSD: "set (digitsLSD n) \<subseteq> set base62Chars"
proof (induction n rule: digitsLSD.induct)
  case (1 n)
  show ?case
  proof (cases "n > 0")
    case True
    have "nat (n mod 62) < length base62Chars"
      by (simp add: length_base62Chars)
    then have "base62Chars ! nat (n mod 62) \<in> set base62Chars"
      by (rule nth_mem)
    with "1.IH" [OF True] True show ?thesis
      by (subst digitsLSD.simps) simp
  next
    case False
    then show ?thesis by (simp add: digitsLSD.simps)
  qed
qed

lemma nth_base62Chars_zero: "k < 62 \<Longrightarrow> base62Chars ! k = CHR ''0'' \<Longrightarrow> k = 0"
proof -
  assume k: "k < 62" and e: "base62Chars ! k = CHR ''0''"
  have "base62Chars ! 0 = CHR ''0''" by (simp add: base62Chars_def)
  with e have "base62Chars ! k = base62Chars ! 0" by simp
  with k show "k = 0"
    using distinct_base62Chars by (simp add: nth_eq_iff_index_eq length_base62Chars)
qed

lemma last_digitsLSD: "0 < n \<Longrightarrow> digitsLSD n \<noteq> [] \<and> last (digitsLSD n) \<noteq> CHR ''0''"
proof (induction n rule: digitsLSD.induct)
  case (1 n)
  have pos: "0 < n" by fact
  have unf: "digitsLSD n = base62Chars ! nat (n mod 62) # digitsLSD (n div 62)"
    using pos by (subst digitsLSD.simps) simp
  show ?case
  proof (cases "0 < n div 62")
    case True
    with "1.IH" [OF pos] show ?thesis by (simp add: unf)
  next
    case False
    with pos have small: "n < 62" and d: "n div 62 = 0"
      by (simp_all add: pos_imp_zdiv_pos_iff)
    have "digitsLSD (n div 62) = []"
      by (simp add: d digitsLSD.simps)
    moreover have "base62Chars ! nat n \<noteq> CHR ''0''"
    proof
      assume e: "base62Chars ! nat n = CHR ''0''"
      have "nat n < 62" using small by simp
      from nth_base62Chars_zero [OF this e] pos show False by simp
    qed
    ultimately show ?thesis using small pos by (simp add: unf)
  qed
qed

text \<open>
  C1. For every non-negative \<open>n\<close>, \<open>encodeBase62 n\<close> is the base-62 numeral of \<open>n\<close>, most
  significant digit first, over the 62-symbol alphabet: zero is encoded as the string
  \<open>0\<close>, the reference decoder is a left inverse, every output character belongs to the
  alphabet, the output is never empty and begins with the digit \<open>0\<close> only when it is the
  string \<open>0\<close> itself, and the encoder is injective on the non-negative integers.
\<close>

theorem encodeBase62_correct:
  assumes "0 \<le> n"
  shows "encodeBase62 0 = ''0''
       \<and> decodeBase62 (encodeBase62 n) = n
       \<and> set (encodeBase62 n) \<subseteq> set base62Chars
       \<and> encodeBase62 n \<noteq> []
       \<and> (hd (encodeBase62 n) = CHR ''0'' \<longrightarrow> encodeBase62 n = ''0'')
       \<and> (\<forall>m. 0 \<le> m \<and> encodeBase62 m = encodeBase62 n \<longrightarrow> m = n)"
proof -
  have dec: "decodeBase62 (encodeBase62 k) = k" if "0 \<le> k" for k
  proof (cases "k = 0")
    case True
    then show ?thesis
      by (simp add: encodeBase62_zero decodeBase62_def base62Chars_def)
  next
    case False
    with that show ?thesis by (simp add: encodeBase62_pos decode_digitsLSD)
  qed
  have alph: "set (encodeBase62 n) \<subseteq> set base62Chars"
  proof (cases "n = 0")
    case True
    then show ?thesis by (simp add: encodeBase62_zero base62Chars_def)
  next
    case False
    with assms show ?thesis by (simp add: encodeBase62_pos set_digitsLSD)
  qed
  have lead: "encodeBase62 n \<noteq> [] \<and> (hd (encodeBase62 n) = CHR ''0'' \<longrightarrow> encodeBase62 n = ''0'')"
  proof (cases "n = 0")
    case True
    then show ?thesis by (simp add: encodeBase62_zero)
  next
    case False
    with assms have pos: "0 < n" by simp
    from last_digitsLSD [OF pos] show ?thesis
      by (simp add: encodeBase62_pos [OF pos] hd_rev)
  qed
  have inj: "\<forall>m. 0 \<le> m \<and> encodeBase62 m = encodeBase62 n \<longrightarrow> m = n"
  proof (intro allI impI)
    fix m assume m: "0 \<le> m \<and> encodeBase62 m = encodeBase62 n"
    then have m0: "0 \<le> m" ..
    from m have "decodeBase62 (encodeBase62 m) = decodeBase62 (encodeBase62 n)" by simp
    moreover have "decodeBase62 (encodeBase62 m) = m" using m0 by (rule dec)
    moreover have "decodeBase62 (encodeBase62 n) = n" using assms by (rule dec)
    ultimately show "m = n" by simp
  qed
  show ?thesis
    using dec [OF assms] alph lead inj encodeBase62_zero by blast
qed

text \<open>The same at 999999, one of the values of the repository's encoding test.\<close>

theorem encodeBase62_correct_witness:
  "encodeBase62 999999 = ''4c91'' \<and> decodeBase62 (encodeBase62 999999) = 999999
   \<and> set (encodeBase62 999999) \<subseteq> set base62Chars
   \<and> hd (encodeBase62 999999) \<noteq> CHR ''0''"
proof -
  have e: "encodeBase62 999999 = ''4c91''"
    by code_simp
  have h: "(0::int) \<le> 999999" by simp
  from encodeBase62_correct [OF h] e show ?thesis by simp
qed

section \<open>Properties of the rate limiter\<close>

lemma digitChar_props: "d < 10 \<Longrightarrow> isDigit (digitChar d) \<and> digitVal (digitChar d) = d"
  by (simp add: isDigit_def digitVal_def digitChar_def byte_def)

lemma formatNat_digits: "\<forall>c\<in>set (formatNat n). isDigit c"
proof (induction n rule: formatNat.induct)
  case (1 n)
  show ?case
  proof (cases "n < 10")
    case True
    then show ?thesis by (subst formatNat.simps) (simp add: digitChar_props)
  next
    case False
    have "n mod 10 < 10" by simp
    with "1.IH" [OF False] False show ?thesis
      by (subst formatNat.simps) (simp add: digitChar_props)
  qed
qed

lemma formatNat_nonempty: "formatNat n \<noteq> []"
  by (subst formatNat.simps) simp

lemma parseDigits_snoc: "parseDigits (tok @ [c]) = 10 * parseDigits tok + digitVal c"
  by (simp add: parseDigits_def)

lemma parseDigits_formatNat: "parseDigits (formatNat n) = n"
proof (induction n rule: formatNat.induct)
  case (1 n)
  show ?case
  proof (cases "n < 10")
    case True
    then show ?thesis
      by (subst formatNat.simps) (simp add: parseDigits_def digitChar_props)
  next
    case False
    have "n mod 10 < 10" by simp
    then have "digitVal (digitChar (n mod 10)) = n mod 10"
      by (simp add: digitChar_props)
    with "1.IH" [OF False] False show ?thesis
      by (subst formatNat.simps) (simp add: parseDigits_snoc)
  qed
qed

lemma isDigit_not_sign: "isDigit c \<Longrightarrow> c \<noteq> CHR ''+'' \<and> c \<noteq> CHR ''-''"
  by (auto simp: isDigit_def byte_def)

lemma spaceRunes_first:
  "p \<in> set spaceRunes \<Longrightarrow> p \<noteq> [] \<and> \<not> isDigit (hd p)"
  by (auto simp: spaceRunes_def isDigit_def byte_def)

lemma isDigit_not_space: "isDigit c \<Longrightarrow> spaceFirst (c # cs) = 0 \<and> \<not> HasPrefix (c # cs) [CHR 0x0A]"
proof -
  assume d: "isDigit c"
  have "find (HasPrefix (c # cs)) spaceRunes = None"
  proof (rule ccontr)
    assume "find (HasPrefix (c # cs)) spaceRunes \<noteq> None"
    then obtain p where f: "find (HasPrefix (c # cs)) spaceRunes = Some p" by auto
    then have "p \<in> set spaceRunes" and h: "HasPrefix (c # cs) p"
      by (auto simp: find_Some_iff)
    with spaceRunes_first [of p] have ne: "p \<noteq> []" and nd: "\<not> isDigit (hd p)" by simp_all
    from ne h have "hd p = c" by (cases p) (auto simp: HasPrefix_def)
    with nd d show False by simp
  qed
  moreover have "\<not> HasPrefix (c # cs) [CHR 0x0A]"
    using d by (auto simp: HasPrefix_def isDigit_def byte_def)
  ultimately show ?thesis by (simp add: spaceFirst_def)
qed

lemma SkipSpace_digit: "isDigit c \<Longrightarrow> SkipSpace (c # cs) = Some (c # cs)"
  using isDigit_not_space [of c cs] by (subst SkipSpace.simps) simp

lemma scanInt_formatNat:
  assumes "int n < 2 ^ 63"
  shows "scanInt (formatNat n) = Some (int n)"
proof -
  let ?s = "formatNat n"
  have dig: "\<forall>c\<in>set ?s. isDigit c" by (rule formatNat_digits)
  have ne: "?s \<noteq> []" by (rule formatNat_nonempty)
  then have hd_in: "hd ?s \<in> set ?s" by simp
  with dig have hd: "isDigit (hd ?s)" by blast
  have skip: "SkipSpace ?s = Some ?s"
    using ne hd SkipSpace_digit [of "hd ?s" "tl ?s"] by simp
  have tw: "takeWhile isDigit ?s = ?s"
    using dig by (simp add: takeWhile_eq_all_conv)
  have sign: "hd ?s \<noteq> CHR ''+''" "hd ?s \<noteq> CHR ''-''"
    using hd isDigit_not_sign [of "hd ?s"] by simp_all
  show ?thesis
    using assms ne sign
    by (simp add: scanInt_def skip tw Let_def parseDigits_formatNat del: takeWhile_eq_all_conv)
qed

lemma Sscanf_Sprintf: "0 \<le> k \<Longrightarrow> k < 2 ^ 63 \<Longrightarrow> Sscanf_d (Sprintf_d k) z = k"
  using scanInt_formatNat [of "nat k"] by (simp add: Sscanf_d_def Sprintf_d_def)

lemma int64_small: "- (2 ^ 63) \<le> x \<Longrightarrow> x < 2 ^ 63 \<Longrightarrow> int64 x = x"
  by (simp add: int64_def)

text \<open>One request that finds a live counter.\<close>

lemma RateLimit_found:
  assumes "cache_Get True now cache (''rate_limit:'' @ ip) = Inr countStr"
  shows "RateLimitMiddleware True setUp now cache ip =
     (let count = int64 (Sscanf_d countStr 0 + 1)
      in if count > 100 then (TooManyRequests, cache)
         else (Next, if setUp
                     then cache\<lparr>client := (client cache)(''rate_limit:'' @ ip \<mapsto> (Sprintf_d count, now + 60))\<rparr>
                     else cache))"
  using assms
  by (simp add: RateLimitMiddleware_def Let_def maxRequests_def timeWindow_def cache_SetWithTTL_def)

lemma RateLimit_error:
  assumes "cache_Get getUp now cache (''rate_limit:'' @ ip) = Inl err"
  shows "RateLimitMiddleware getUp setUp now cache ip =
     (Next, if setUp
            then cache\<lparr>client := (client cache)(''rate_limit:'' @ ip \<mapsto> (''1'', now + 60))\<rparr>
            else cache)"
  using assms
  by (simp add: RateLimitMiddleware_def Let_def timeWindow_def cache_SetWithTTL_def)

lemma RateLimit_counter:
  assumes "client cache (''rate_limit:'' @ ip) = Some (Sprintf_d k, e)" "now < e" "1 \<le> k" "k \<le> 100"
  shows "RateLimitMiddleware True True now cache ip =
     (if k = 100 then (TooManyRequests, cache)
      else (Next, cache\<lparr>client := (client cache)(''rate_limit:'' @ ip \<mapsto> (Sprintf_d (k + 1), now + 60))\<rparr>))"
proof -
  have g: "cache_Get True now cache (''rate_limit:'' @ ip) = Inr (Sprintf_d k)"
    using assms by (simp add: cache_Get_def)
  have s: "Sscanf_d (Sprintf_d k) 0 = k"
    using assms by (intro Sscanf_Sprintf) simp_all
  have i: "int64 (k + 1) = k + 1"
    using assms by (intro int64_small) simp_all
  show ?thesis
    using assms by (simp add: RateLimit_found [OF g] s i Let_def)
qed

lemma serve_counter:
  assumes "client cache (''rate_limit:'' @ ip) = Some (Sprintf_d k, e)"
    and "1 \<le> k" "k \<le> 100" "t0 + 60 \<le> e" "\<forall>t\<in>set ts. t0 \<le> t \<and> t < t0 + 60"
  shows "fst (serve cache ip ts) =
     replicate (min (length ts) (nat (100 - k))) Next
       @ replicate (length ts - nat (100 - k)) TooManyRequests"
  using assms
proof (induction ts arbitrary: cache k e)
  case Nil
  then show ?case by simp
next
  case (Cons t ts)
  have live: "t < e" using Cons.prems by simp
  note step = RateLimit_counter [OF Cons.prems(1) live Cons.prems(2) Cons.prems(3)]
  show ?case
  proof (cases "k = 100")
    case True
    have "fst (serve cache ip ts) =
        replicate (min (length ts) (nat (100 - k))) Next
          @ replicate (length ts - nat (100 - k)) TooManyRequests"
      using Cons.prems by (intro Cons.IH [of cache k e]) simp_all
    then show ?thesis
      using True step by (simp add: split_beta)
  next
    case False
    let ?c = "cache\<lparr>client := (client cache)(''rate_limit:'' @ ip \<mapsto> (Sprintf_d (k + 1), t + 60))\<rparr>"
    have "fst (serve ?c ip ts) =
        replicate (min (length ts) (nat (100 - (k + 1)))) Next
          @ replicate (length ts - nat (100 - (k + 1))) TooManyRequests"
      using Cons.prems False by (intro Cons.IH [of ?c "k + 1" "t + 60"]) simp_all
    moreover have "nat (100 - k) = Suc (nat (100 - (k + 1)))"
      using Cons.prems False by simp
    ultimately show ?thesis
      using False step by (simp add: split_beta)
  qed
qed

lemma Sprintf_d_one: "Sprintf_d 1 = ''1''"
  by code_simp

text \<open>
  C3. One client, sequential requests, no cache error. If the first request at \<open>t0\<close>
  finds no live counter and the next hundred requests fall into the sixty seconds from
  \<open>t0\<close>, requests 1 to 100 are let through and request 101 is refused. A refused request
  never changes the cache, and a request that finds a counter whose incremented value is
  within the threshold writes that value back with the expiry set to a full window from
  now.
\<close>

theorem rate_limit_window:
  assumes "cache_Get True t0 cache (''rate_limit:'' @ ip) = Inl RedisNil"
    and "length ts = 100"
    and "\<forall>t\<in>set ts. t0 \<le> t \<and> t < t0 + 60"
  shows "fst (serve cache ip (t0 # ts)) = replicate 100 Next @ [TooManyRequests]
       \<and> (\<forall>getUp setUp now c. fst (RateLimitMiddleware getUp setUp now c ip) = TooManyRequests
             \<longrightarrow> snd (RateLimitMiddleware getUp setUp now c ip) = c)
       \<and> (\<forall>now c countStr.
             cache_Get True now c (''rate_limit:'' @ ip) = Inr countStr
             \<and> int64 (Sscanf_d countStr 0 + 1) \<le> 100
             \<longrightarrow> RateLimitMiddleware True True now c ip =
                   (Next, c\<lparr>client := (client c)(''rate_limit:'' @ ip \<mapsto>
                              (Sprintf_d (int64 (Sscanf_d countStr 0 + 1)), now + 60))\<rparr>))"
proof -
  let ?key = "''rate_limit:'' @ ip"
  let ?c1 = "cache\<lparr>client := (client cache)(?key \<mapsto> (Sprintf_d 1, t0 + 60))\<rparr>"
  have first: "RateLimitMiddleware True True t0 cache ip = (Next, ?c1)"
    by (simp add: RateLimit_error [OF assms(1)] Sprintf_d_one)
  have "fst (serve ?c1 ip ts) =
      replicate (min (length ts) (nat (100 - 1))) Next
        @ replicate (length ts - nat (100 - 1)) TooManyRequests"
    using assms(3) by (intro serve_counter [of ?c1 ip 1 "t0 + 60" t0]) simp_all
  then have rest: "fst (serve ?c1 ip ts) = replicate 99 Next @ [TooManyRequests]"
    using assms(2) by simp
  have run: "fst (serve cache ip (t0 # ts)) = replicate 100 Next @ [TooManyRequests]"
  proof -
    have "fst (serve cache ip (t0 # ts)) = Next # fst (serve ?c1 ip ts)"
      by (simp add: first split_beta)
    also have "\<dots> = Next # replicate 99 Next @ [TooManyRequests]"
      by (simp only: rest)
    also have "\<dots> = replicate (Suc 99) Next @ [TooManyRequests]"
      by (simp only: replicate_Suc append_Cons)
    finally show ?thesis by simp
  qed
  have refused: "snd (RateLimitMiddleware getUp setUp now c ip) = c"
    if "fst (RateLimitMiddleware getUp setUp now c ip) = TooManyRequests"
    for getUp setUp now and c :: RedisCache
    using that
    by (auto simp: RateLimitMiddleware_def Let_def cache_SetWithTTL_def
             split: sum.splits if_splits)
  have allowed: "RateLimitMiddleware True True now c ip =
        (Next, c\<lparr>client := (client c)(?key \<mapsto>
                   (Sprintf_d (int64 (Sscanf_d countStr 0 + 1)), now + 60))\<rparr>)"
    if "cache_Get True now c ?key = Inr countStr \<and> int64 (Sscanf_d countStr 0 + 1) \<le> 100"
    for now countStr and c :: RedisCache
  proof -
    from that have g: "cache_Get True now c ?key = Inr countStr"
      and le: "int64 (Sscanf_d countStr 0 + 1) \<le> 100" by simp_all
    show ?thesis
      using le by (simp add: RateLimit_found [OF g] Let_def)
  qed
  show ?thesis
    using run refused allowed by blast
qed

text \<open>
  The same for a client that sends its first request at second 0 to an empty cache and
  the other hundred at second 5.
\<close>

theorem rate_limit_window_witness:
  "fst (serve NewRedisCache ''1.2.3.4'' (0 # replicate 100 5))
     = replicate 100 Next @ [TooManyRequests]"
proof -
  have a: "cache_Get True 0 NewRedisCache (''rate_limit:'' @ ''1.2.3.4'') = Inl RedisNil"
    by (simp add: cache_Get_def NewRedisCache_def)
  have b: "length (replicate 100 (5::nat)) = 100" by simp
  have c: "\<forall>t\<in>set (replicate 100 (5::nat)). 0 \<le> t \<and> t < 0 + 60" by simp
  from rate_limit_window [OF a b c] show ?thesis by blast
qed

text \<open>
  C10. Whatever error the read of the counter returns, an absent key or an outage, the
  middleware lets the request through and writes the counter \<open>1\<close> with a fresh window of
  sixty seconds; when that write succeeds the cache then holds \<open>1\<close> for the client, so
  every count accumulated before is lost. When the write fails too the cache is left as
  it was.
\<close>

theorem rate_limit_read_error_resets:
  assumes "cache_Get getUp now cache (''rate_limit:'' @ ip) = Inl err"
  shows "(err = RedisNil \<or> err = RedisDown)
       \<and> RateLimitMiddleware getUp setUp now cache ip =
           (Next, if setUp
                  then cache\<lparr>client := (client cache)(''rate_limit:'' @ ip \<mapsto> (''1'', now + 60))\<rparr>
                  else cache)
       \<and> (setUp \<longrightarrow> cache_Get True now (snd (RateLimitMiddleware getUp setUp now cache ip))
                       (''rate_limit:'' @ ip) = Inr ''1'')"
proof -
  have "err = RedisNil \<or> err = RedisDown" by (cases err) simp_all
  then show ?thesis
    by (simp add: RateLimit_error [OF assms] cache_Get_def)
qed

text \<open>
  A client that has used up its hundred requests and then meets one failed read, the
  write succeeding: the request passes and the counter is back at \<open>1\<close>.
\<close>

theorem rate_limit_read_error_resets_witness:
  "cache_Get True 30 (NewRedisCache\<lparr>client := [''rate_limit:1.2.3.4'' \<mapsto> (''100'', 60)]\<rparr>)
       ''rate_limit:1.2.3.4'' = Inr ''100''
   \<and> RateLimitMiddleware True True 30
       (NewRedisCache\<lparr>client := [''rate_limit:1.2.3.4'' \<mapsto> (''100'', 60)]\<rparr>) ''1.2.3.4''
       = (TooManyRequests, NewRedisCache\<lparr>client := [''rate_limit:1.2.3.4'' \<mapsto> (''100'', 60)]\<rparr>)
   \<and> fst (RateLimitMiddleware False True 30
       (NewRedisCache\<lparr>client := [''rate_limit:1.2.3.4'' \<mapsto> (''100'', 60)]\<rparr>) ''1.2.3.4'') = Next
   \<and> cache_Get True 30 (snd (RateLimitMiddleware False True 30
       (NewRedisCache\<lparr>client := [''rate_limit:1.2.3.4'' \<mapsto> (''100'', 60)]\<rparr>) ''1.2.3.4''))
       ''rate_limit:1.2.3.4'' = Inr ''1''"
proof -
  let ?c = "NewRedisCache\<lparr>client := [''rate_limit:1.2.3.4'' \<mapsto> (''100'', 60)]\<rparr>"
  have live: "cache_Get True 30 ?c ''rate_limit:1.2.3.4'' = Inr ''100''"
    by (simp add: cache_Get_def)
  have hundred: "Sprintf_d 100 = ''100''" by code_simp
  have full: "RateLimitMiddleware True True 30 ?c ''1.2.3.4'' = (TooManyRequests, ?c)"
    using RateLimit_counter [of ?c "''1.2.3.4''" 100 60 30] by (simp add: hundred)
  have down: "cache_Get False 30 ?c (''rate_limit:'' @ ''1.2.3.4'') = Inl RedisDown"
    by (simp add: cache_Get_def)
  from rate_limit_read_error_resets [OF down, of True] live full show ?thesis
    by (simp add: cache_Get_def)
qed

section \<open>Properties of the analytics pipeline\<close>

lemma RecordClickAsync_queue:
  "eventQueue (RecordClickAsync parseIP now s shortCode ipAddress userAgent) =
     (if length (eventQueue s) < queueCap s
      then eventQueue s @ [eventOf parseIP (now, shortCode, ipAddress, userAgent)]
      else eventQueue s)"
  by (simp add: RecordClickAsync_def eventOf_def Let_def)

lemma RecordClickAsync_fields:
  "queueCap (RecordClickAsync parseIP now s shortCode ipAddress userAgent) = queueCap s
   \<and> batchSize (RecordClickAsync parseIP now s shortCode ipAddress userAgent) = batchSize s
   \<and> flushInterval (RecordClickAsync parseIP now s shortCode ipAddress userAgent) = flushInterval s"
  by (simp add: RecordClickAsync_def Let_def)

lemma captureAll_queueCap: "queueCap (captureAll parseIP s clicks) = queueCap s"
  by (induction parseIP s clicks rule: captureAll.induct) (simp_all add: RecordClickAsync_fields)

lemma captureAll_queue:
  "length (eventQueue s) \<le> queueCap s \<Longrightarrow>
   eventQueue (captureAll parseIP s clicks) =
     take (queueCap s) (eventQueue s @ map (eventOf parseIP) clicks)"
proof (induction parseIP s clicks rule: captureAll.induct)
  case (1 parseIP s)
  then show ?case by simp
next
  case (2 parseIP s now shortCode ipAddress userAgent clicks)
  let ?s = "RecordClickAsync parseIP now s shortCode ipAddress userAgent"
  let ?e = "eventOf parseIP (now, shortCode, ipAddress, userAgent)"
  have cap: "queueCap ?s = queueCap s" by (simp add: RecordClickAsync_fields)
  show ?case
  proof (cases "length (eventQueue s) < queueCap s")
    case True
    then have q: "eventQueue ?s = eventQueue s @ [?e]"
      by (simp add: RecordClickAsync_queue)
    with True have "length (eventQueue ?s) \<le> queueCap ?s"
      by (simp add: cap)
    from "2.IH" [OF this] show ?thesis
      by (simp add: q cap)
  next
    case False
    with "2.prems" have full: "length (eventQueue s) = queueCap s" by simp
    have q: "eventQueue ?s = eventQueue s"
      using False by (simp add: RecordClickAsync_queue)
    have "length (eventQueue ?s) \<le> queueCap ?s"
      using full by (simp add: q cap)
    from "2.IH" [OF this] show ?thesis
      using full by (simp add: q cap)
  qed
qed

text \<open>
  C7. Capturing a click has no failure to report: \<open>RecordClickAsync\<close> is a total function
  without an error result. When the queue has room the sanitized event, stamped with the
  time of the call, is appended; when the queue is full the queue is left as it was. The
  capacity, 10000 for a new service, never changes, and a burst of any length sent to a
  new service leaves exactly its first 10000 events in the queue.
\<close>

theorem capture_never_blocks:
  "eventQueue (RecordClickAsync parseIP now s shortCode ipAddress userAgent) =
     (if length (eventQueue s) < queueCap s
      then eventQueue s @
             [\<lparr>e_ShortCode = shortCode, e_IPAddress = sanitizeIPAddress parseIP ipAddress,
               e_UserAgent = sanitizeUserAgent userAgent, Timestamp = now\<rparr>]
      else eventQueue s)
   \<and> queueCap (RecordClickAsync parseIP now s shortCode ipAddress userAgent) = queueCap s
   \<and> queueCap NewAnalyticsService = 10000
   \<and> eventQueue (captureAll parseIP NewAnalyticsService clicks) =
       take 10000 (map (eventOf parseIP) clicks)"
proof -
  have "length (eventQueue NewAnalyticsService) \<le> queueCap NewAnalyticsService"
    by (simp add: NewAnalyticsService_def)
  from captureAll_queue [OF this, of parseIP clicks]
  have "eventQueue (captureAll parseIP NewAnalyticsService clicks) =
      take 10000 (map (eventOf parseIP) clicks)"
    by (simp add: NewAnalyticsService_def)
  then show ?thesis
    by (simp add: RecordClickAsync_def Let_def NewAnalyticsService_def)
qed

text \<open>
  A service whose queue of capacity 2 is full drops the click; with room it appends it.
\<close>

theorem capture_never_blocks_witness:
  "eventQueue (RecordClickAsync (\<lambda>a. True) 7 (NewAnalyticsService\<lparr>queueCap := 0\<rparr>)
       ''abc'' ''203.0.113.9'' ''curl'') = []
   \<and> eventQueue (RecordClickAsync (\<lambda>a. True) 7 NewAnalyticsService
       ''abc'' ''203.0.113.9, 10.0.0.1'' '' curl '') =
       [\<lparr>e_ShortCode = ''abc'', e_IPAddress = ''203.0.113.9'', e_UserAgent = ''curl'',
         Timestamp = 7\<rparr>]"
proof -
  have ip: "sanitizeIPAddress (\<lambda>a. True) ''203.0.113.9, 10.0.0.1'' = ''203.0.113.9''"
    by code_simp
  have ua: "sanitizeUserAgent '' curl '' = ''curl''"
    by code_simp
  show ?thesis
    using capture_never_blocks [of "\<lambda>a. True" 7 "NewAnalyticsService\<lparr>queueCap := 0\<rparr>"
        "''abc''" "''203.0.113.9''" "''curl''" "[]"]
      capture_never_blocks [of "\<lambda>a. True" 7 NewAnalyticsService
        "''abc''" "''203.0.113.9, 10.0.0.1''" "'' curl ''" "[]"]
    by (simp add: ip ua NewAnalyticsService_def)
qed

lemma RecordClick_ClickedAt:
  "RecordClick True now db a = (ok, a', db') \<Longrightarrow>
   ClickedAt a' = now \<and> analytics db' = analytics db @ [a']"
  by (auto simp: RecordClick_def Let_def)

text \<open>
  C4. A click captured at second 1000 carries that time in its event. The worker receives
  the event at second 1003 and the timer flushes the batch at second 1005. The record
  built from the event does not take the event's time over, and the row that reaches the
  table is stamped by the database at the flush: \<open>clicked_at\<close> is 1005, not 1000.
\<close>

theorem click_stamped_at_flush:
  "map Timestamp (eventQueue
      (RecordClickAsync (\<lambda>a. True) 1000 NewAnalyticsService ''abc'' ''203.0.113.9'' ''curl''))
     = [1000]
   \<and> map ClickedAt (analytics (snd (snd
        (processEvents (\<lambda>a. True) 1005 Tick
          (processEvents (\<lambda>a. True) 1003 Received
            (RecordClickAsync (\<lambda>a. True) 1000 NewAnalyticsService ''abc'' ''203.0.113.9'' ''curl'',
             [], emptyDB))))))
     = [1005]"
proof -
  let ?s1 = "RecordClickAsync (\<lambda>a. True) 1000 NewAnalyticsService ''abc'' ''203.0.113.9'' ''curl''"
  let ?e = "\<lparr>e_ShortCode = ''abc'', e_IPAddress = ''203.0.113.9'', e_UserAgent = ''curl'',
             Timestamp = 1000\<rparr>"
  let ?a = "\<lparr>a_ID = 0, a_ShortCode = ''abc'', ClickedAt = 0, IPAddress = ''203.0.113.9'',
             UserAgent = ''curl''\<rparr>"
  have ip: "sanitizeIPAddress (\<lambda>a. True) ''203.0.113.9'' = ''203.0.113.9''"
    by code_simp
  have ua: "sanitizeUserAgent ''curl'' = ''curl''"
    by code_simp
  have s1: "?s1 = NewAnalyticsService\<lparr>eventQueue := [?e]\<rparr>"
    by (simp add: RecordClickAsync_def Let_def ip ua NewAnalyticsService_def)
  have recv: "processEvents (\<lambda>a. True) 1003 Received (?s1, [], emptyDB) =
      (NewAnalyticsService, [?a], emptyDB)"
    unfolding s1 by (simp add: Let_def NewAnalyticsService_def)
  have tick: "processEvents (\<lambda>a. True) 1005 Tick (NewAnalyticsService, [?a], emptyDB) =
      (NewAnalyticsService, [],
       emptyDB\<lparr>analytics := [?a\<lparr>a_ID := 1, ClickedAt := 1005\<rparr>], analytics_id_seq := 1\<rparr>)"
    by (simp add: RecordClick_def Let_def emptyDB_def)
  show ?thesis
    by (simp only: recv tick) (simp add: s1)
qed

section \<open>Properties of the router\<close>

lemma mainRouter_trees:
  "trees mainRouter =
     [\<lparr>Method = ''GET'', Path = ''/health'',
       HandlersChain = [H_Recovery, H_LoggerMiddleware, H_CORSMiddleware, H_SecurityMiddleware,
                        H_RateLimitMiddleware, H_HealthCheck]\<rparr>,
      \<lparr>Method = ''GET'', Path = ''/metrics'',
       HandlersChain = [H_Recovery, H_LoggerMiddleware, H_CORSMiddleware, H_SecurityMiddleware,
                        H_RateLimitMiddleware, H_MetricsHandler]\<rparr>,
      \<lparr>Method = ''POST'', Path = ''/api/v1/shorten'',
       HandlersChain = [H_Recovery, H_LoggerMiddleware, H_CORSMiddleware, H_SecurityMiddleware,
                        H_RateLimitMiddleware, H_ShortenURL]\<rparr>,
      \<lparr>Method = ''GET'', Path = ''/api/v1/urls/:short_code/stats'',
       HandlersChain = [H_Recovery, H_LoggerMiddleware, H_CORSMiddleware, H_SecurityMiddleware,
                        H_RateLimitMiddleware, H_GetURLStats]\<rparr>,
      \<lparr>Method = ''GET'', Path = ''/:short_code'',
       HandlersChain = [H_Recovery, H_LoggerMiddleware, H_CORSMiddleware, H_SecurityMiddleware,
                        H_RateLimitMiddleware, H_RedirectURL]\<rparr>]"
  by (simp add: mainRouter_def setupRoutes_def Let_def GET_def handle_def Group_def Use_def
        gin_New_def joinPaths_def)

lemma getRoute_redirect:
  "getRoute mainRouter ''GET'' ''/dnh'' =
     Some \<lparr>Method = ''GET'', Path = ''/:short_code'',
           HandlersChain = [H_Recovery, H_LoggerMiddleware, H_CORSMiddleware, H_SecurityMiddleware,
                            H_RateLimitMiddleware, H_RedirectURL]\<rparr>"
  by (simp add: getRoute_def mainRouter_trees)

text \<open>
  C5, as the code has it. \<open>main\<close> registers the rate limiter on the engine before any
  route exists, so it stands in the chain of every route, in front of the handler: of the
  API routes, of the health and metrics routes and of the redirect route as well.
\<close>

theorem rate_limit_on_every_route:
  "map (\<lambda>r. (Method r, Path r, H_RateLimitMiddleware \<in> set (butlast (HandlersChain r))))
       (trees mainRouter) =
     [(''GET'', ''/health'', True), (''GET'', ''/metrics'', True),
      (''POST'', ''/api/v1/shorten'', True), (''GET'', ''/api/v1/urls/:short_code/stats'', True),
      (''GET'', ''/:short_code'', True)]"
  by (simp add: mainRouter_trees)

text \<open>
  C5 as the specification states it does not hold: the request \<open>GET /dnh\<close> is routed to the redirect
  handler through a chain that runs the rate limiter first.
\<close>

theorem redirect_is_rate_limited:
  "map_option HandlersChain (getRoute mainRouter ''GET'' ''/dnh'') =
     Some [H_Recovery, H_LoggerMiddleware, H_CORSMiddleware, H_SecurityMiddleware,
           H_RateLimitMiddleware, H_RedirectURL]"
  by (simp add: getRoute_redirect)

section \<open>Properties of the URL service\<close>

lemma validateURL_parses: "validateURL lower rawURL = None \<Longrightarrow> \<exists>n. normalizeURL lower rawURL = Some n"
  by (auto simp: validateURL_def normalizeURL_def Let_def split: option.splits)

lemma validateURL_example_com:
  "validateURL lower ''example.com'' = Some ''only HTTP and HTTPS URLs are allowed''"
  by code_simp

lemma normalizeURL_example_com: "normalizeURL lower ''example.com'' = Some ''https://example.com''"
  by code_simp

lemma ShortenURL_invalid_url:
  "validateURL lower originalURL = Some err \<Longrightarrow>
   ShortenURL lower env now w originalURL customAlias = (Error (''invalid URL: '' @ err), w)"
  by (simp add: ShortenURL_def)

lemma ShortenURL_invalid_alias:
  assumes "validateURL lower originalURL = None" "customAlias \<noteq> []"
    and "validateCustomAlias lower customAlias = Some err"
  shows "ShortenURL lower env now w originalURL customAlias = (Error (''invalid custom alias: '' @ err), w)"
proof -
  from validateURL_parses [OF assms(1)] obtain n where "normalizeURL lower originalURL = Some n" ..
  with assms show ?thesis by (simp add: ShortenURL_def)
qed

text \<open>
  C2, as the code has it. \<open>ShortenURL\<close> validates before it normalizes, and the
  validation refuses every string whose parsed scheme is neither \<open>http\<close> nor \<open>https\<close>:
  for the input \<open>example.com\<close> the service returns the error of an invalid URL, whatever
  the alias and the state, changes nothing and makes no call to the database or the
  cache. \<open>normalizeURL\<close> alone maps \<open>example.com\<close> to \<open>https://example.com\<close>.
\<close>

theorem shorten_schemeless_rejected:
  "ShortenURL lower env now w ''example.com'' customAlias =
     (Error ''invalid URL: only HTTP and HTTPS URLs are allowed'', w)
   \<and> normalizeURL lower ''example.com'' = Some ''https://example.com''"
proof -
  have s: "ShortenURL lower env now w ''example.com'' customAlias =
      (Error (''invalid URL: '' @ ''only HTTP and HTTPS URLs are allowed''), w)"
    by (rule ShortenURL_invalid_url [OF validateURL_example_com])
  from s normalizeURL_example_com show ?thesis by simp
qed

text \<open>
  C2 as the specification states it does not hold: on an empty database, with nothing failing, shortening
  \<open>example.com\<close> does not return a code but the error of an invalid URL.
\<close>

theorem shorten_example_com_fails:
  "fst (ShortenURL id sequential 0 emptyWorld ''example.com'' []) =
     Error ''invalid URL: only HTTP and HTTPS URLs are allowed''"
  by (simp add: ShortenURL_def validateURL_example_com)

text \<open>
  C8. When the URL does not validate, or the URL validates and the alias that was given
  does not, \<open>ShortenURL\<close> returns the error of the validation and the state it was called
  in: the database with its sequence, the cache, and the record of calls, so that neither
  the sequence nor the existence check nor the insert was reached.
\<close>

theorem validation_fails_fast:
  assumes "validateURL lower originalURL = Some err
         \<or> (validateURL lower originalURL = None \<and> customAlias \<noteq> []
            \<and> validateCustomAlias lower customAlias = Some err)"
  shows "ShortenURL lower env now w originalURL customAlias =
           (Error ((if validateURL lower originalURL = None then ''invalid custom alias: ''
                    else ''invalid URL: '') @ err), w)"
  using assms
proof
  assume "validateURL lower originalURL = Some err"
  then show ?thesis by (simp add: ShortenURL_invalid_url)
next
  assume "validateURL lower originalURL = None \<and> customAlias \<noteq> []
      \<and> validateCustomAlias lower customAlias = Some err"
  then show ?thesis by (simp add: ShortenURL_invalid_alias)
qed

lemma validateURL_ftp: "validateURL lower ''ftp://example.com'' = Some ''only HTTP and HTTPS URLs are allowed''"
  by code_simp

lemma validateURL_https: "validateURL lower ''https://example.com'' = None"
  by code_simp

lemma validateCustomAlias_api:
  "validateCustomAlias lower ''api'' = Some ''custom alias cannot be a reserved word''"
  by code_simp

text \<open>
  An \<open>ftp\<close> URL with a good alias, and a good URL with the reserved alias \<open>api\<close>: both
  are refused and leave the state alone.
\<close>

theorem validation_fails_fast_witness:
  "ShortenURL id sequential 0 emptyWorld ''ftp://example.com'' ''my-link'' =
     (Error ''invalid URL: only HTTP and HTTPS URLs are allowed'', emptyWorld)
   \<and> ShortenURL id sequential 0 emptyWorld ''https://example.com'' ''api'' =
     (Error ''invalid custom alias: custom alias cannot be a reserved word'', emptyWorld)"
proof -
  have a: "validateURL id ''ftp://example.com'' = Some ''only HTTP and HTTPS URLs are allowed''
      \<or> (validateURL id ''ftp://example.com'' = None \<and> ''my-link'' \<noteq> []
          \<and> validateCustomAlias id ''my-link'' = Some ''only HTTP and HTTPS URLs are allowed'')"
    by (simp add: validateURL_ftp)
  have b: "validateURL id ''https://example.com'' = Some ''custom alias cannot be a reserved word''
      \<or> (validateURL id ''https://example.com'' = None \<and> ''api'' \<noteq> []
          \<and> validateCustomAlias id ''api'' = Some ''custom alias cannot be a reserved word'')"
    by (simp add: validateURL_https validateCustomAlias_api)
  from validation_fails_fast [OF a, of sequential 0 emptyWorld]
    validation_fails_fast [OF b, of sequential 0 emptyWorld]
  show ?thesis by (simp add: validateURL_ftp validateURL_https)
qed


lemma create_error_is_server_error:
  "\<not> Contains (''failed to create URL: '' @ uniqueViolation) ''invalid URL''
   \<and> \<not> Contains (''failed to create URL: '' @ uniqueViolation) ''invalid custom alias''
   \<and> \<not> Contains (''failed to create URL: '' @ uniqueViolation) ''already exists''
   \<and> \<not> Contains (''failed to create URL: '' @ tooLongError) ''invalid URL''
   \<and> \<not> Contains (''failed to create URL: '' @ tooLongError) ''invalid custom alias''
   \<and> \<not> Contains (''failed to create URL: '' @ tooLongError) ''already exists''"
  by code_simp

lemma ShortenURL_lost_race:
  assumes "validateURL lower originalURL = None" "customAlias \<noteq> []"
    and "validateCustomAlias lower customAlias = None"
    and "lookupFault env = None" "createFault env = None"
    and "\<not> list_ex (\<lambda>r. ShortCode r = customAlias) (urls (w_db w))"
    and "list_ex (\<lambda>r. ShortCode r = customAlias) (urls (concurrent env (w_db w)))"
  shows "fst (ShortenURL lower env now w originalURL customAlias) =
     Error (''failed to create URL: '' @
            (if length customAlias > 10 then tooLongError else uniqueViolation))"
proof -
  from validateURL_parses [OF assms(1)] obtain n where "normalizeURL lower originalURL = Some n" ..
  with assms show ?thesis
    by (simp add: ShortenURL_def Exists_def createAndCache_def Create_def Let_def)
qed

text \<open>
  C6, as the code has it. The alias passes the existence check, another request inserts
  the same alias before this one does, and the insert fails on the table definition.
  \<open>ShortenURL\<close> wraps the driver's message as a failure to create the URL; the handler
  finds none of its three client-error phrases in it and answers 500 with the generic
  message. Nothing panics.
\<close>

theorem lost_race_is_server_error:
  assumes "validateURL lower originalURL = None" "customAlias \<noteq> []"
    and "validateCustomAlias lower customAlias = None"
    and "lookupFault env = None" "createFault env = None"
    and "\<not> list_ex (\<lambda>r. ShortCode r = customAlias) (urls (w_db w))"
    and "list_ex (\<lambda>r. ShortCode r = customAlias) (urls (concurrent env (w_db w)))"
  shows "fst (ShortenURL lower env now w originalURL customAlias) =
           Error (''failed to create URL: '' @
                  (if length customAlias > 10 then tooLongError else uniqueViolation))
       \<and> fst (URLHandler_ShortenURL lower env now w
                (Some \<lparr>r_URL = originalURL, r_CustomAlias = customAlias\<rparr>) baseURLHeader) =
           (500, ErrorJSON ''Failed to create short URL'')"
proof -
  let ?msg = "''failed to create URL: '' @
      (if length customAlias > 10 then tooLongError else uniqueViolation)"
  have s: "fst (ShortenURL lower env now w originalURL customAlias) = Error ?msg"
    by (rule ShortenURL_lost_race [OF assms])
  have c: "\<not> Contains ?msg ''invalid URL'' \<and> \<not> Contains ?msg ''invalid custom alias''
      \<and> \<not> Contains ?msg ''already exists''"
    using create_error_is_server_error by (cases "length customAlias > 10") simp_all
  obtain w' where r: "ShortenURL lower env now w originalURL customAlias = (Error ?msg, w')"
    using s by (cases "ShortenURL lower env now w originalURL customAlias") simp
  have "fst (URLHandler_ShortenURL lower env now w
        (Some \<lparr>r_URL = originalURL, r_CustomAlias = customAlias\<rparr>) baseURLHeader) =
      (500, ErrorJSON ''Failed to create short URL'')"
    unfolding URLHandler_ShortenURL_def using r c by simp
  with s show ?thesis by simp
qed

lemma validateCustomAlias_my_link: "validateCustomAlias lower ''my-link'' = None"
  by code_simp

text \<open>
  The alias \<open>my-link\<close> on an empty database, while another request inserts \<open>my-link\<close>
  between the check and the insert.
\<close>

theorem lost_race_is_server_error_witness:
  "fst (ShortenURL id racing 0 emptyWorld ''https://example.com'' ''my-link'') =
     Error (''failed to create URL: '' @ uniqueViolation)
   \<and> fst (URLHandler_ShortenURL id racing 0 emptyWorld
          (Some \<lparr>r_URL = ''https://example.com'', r_CustomAlias = ''my-link''\<rparr>) []) =
     (500, ErrorJSON ''Failed to create short URL'')"
proof -
  have a: "''my-link'' \<noteq> []" by simp
  have f1: "lookupFault racing = None" and f2: "createFault racing = None"
    by (simp_all add: racing_def sequential_def)
  have n: "\<not> list_ex (\<lambda>r. ShortCode r = ''my-link'') (urls (w_db emptyWorld))"
    by (simp add: emptyWorld_def emptyDB_def)
  have y: "list_ex (\<lambda>r. ShortCode r = ''my-link'') (urls (concurrent racing (w_db emptyWorld)))"
    by (simp add: racing_def sequential_def emptyWorld_def emptyDB_def myLinkRow_def)
  from lost_race_is_server_error [where lower = id and now = 0 and baseURLHeader = "[]",
      OF validateURL_https a validateCustomAlias_my_link f1 f2 n y]
  show ?thesis by simp
qed

text \<open>
  C6 as the specification states it does not hold: in that race the response is the status 500 of a
  server error, not the 400 with which the handler answers an alias that already exists.
\<close>

theorem lost_race_not_alias_conflict:
  "fst (URLHandler_ShortenURL id racing 0 emptyWorld
          (Some \<lparr>r_URL = ''https://example.com'', r_CustomAlias = ''my-link''\<rparr>) []) =
     (500, ErrorJSON ''Failed to create short URL'')
   \<and> fst (URLHandler_ShortenURL id sequential 0
          (emptyWorld\<lparr>w_db := emptyDB\<lparr>urls := [myLinkRow], urls_id_seq := 1\<rparr>\<rparr>)
          (Some \<lparr>r_URL = ''https://example.com'', r_CustomAlias = ''my-link''\<rparr>) []) =
     (400, ErrorJSON ''custom alias already exists'')"
proof -
  have n: "normalizeURL id ''https://example.com'' = Some ''https://example.com''"
    by code_simp
  have c: "\<not> Contains (''failed to create URL: '' @ uniqueViolation) ''invalid URL''
      \<and> \<not> Contains (''failed to create URL: '' @ uniqueViolation) ''invalid custom alias''
      \<and> \<not> Contains (''failed to create URL: '' @ uniqueViolation) ''already exists''"
    using create_error_is_server_error by simp
  have e: "Contains ''custom alias already exists'' ''already exists''"
    by code_simp
  have race: "fst (ShortenURL id racing 0 emptyWorld ''https://example.com'' ''my-link'') =
      Error (''failed to create URL: '' @ uniqueViolation)"
    by (simp add: ShortenURL_def validateURL_https n validateCustomAlias_my_link Exists_def
          createAndCache_def Create_def Let_def racing_def sequential_def emptyWorld_def
          emptyDB_def myLinkRow_def)
  have taken: "fst (ShortenURL id sequential 0
        (emptyWorld\<lparr>w_db := emptyDB\<lparr>urls := [myLinkRow], urls_id_seq := 1\<rparr>\<rparr>)
        ''https://example.com'' ''my-link'') = Error ''custom alias already exists''"
    by (simp add: ShortenURL_def validateURL_https n validateCustomAlias_my_link Exists_def
          Let_def sequential_def emptyWorld_def emptyDB_def myLinkRow_def)
  have h1: "fst (URLHandler_ShortenURL id racing 0 emptyWorld
        (Some \<lparr>r_URL = ''https://example.com'', r_CustomAlias = ''my-link''\<rparr>) []) =
      (500, ErrorJSON ''Failed to create short URL'')"
  proof -
    obtain w' where "ShortenURL id racing 0 emptyWorld ''https://example.com'' ''my-link'' =
        (Error (''failed to create URL: '' @ uniqueViolation), w')"
      using race by (cases "ShortenURL id racing 0 emptyWorld ''https://example.com'' ''my-link''") simp
    then show ?thesis
      unfolding URLHandler_ShortenURL_def using c by simp
  qed
  have h2: "fst (URLHandler_ShortenURL id sequential 0
        (emptyWorld\<lparr>w_db := emptyDB\<lparr>urls := [myLinkRow], urls_id_seq := 1\<rparr>\<rparr>)
        (Some \<lparr>r_URL = ''https://example.com'', r_CustomAlias = ''my-link''\<rparr>) []) =
      (400, ErrorJSON ''custom alias already exists'')"
  proof -
    obtain w' where "ShortenURL id sequential 0
        (emptyWorld\<lparr>w_db := emptyDB\<lparr>urls := [myLinkRow], urls_id_seq := 1\<rparr>\<rparr>)
        ''https://example.com'' ''my-link'' = (Error ''custom alias already exists'', w')"
      using taken
      by (cases "ShortenURL id sequential 0
        (emptyWorld\<lparr>w_db := emptyDB\<lparr>urls := [myLinkRow], urls_id_seq := 1\<rparr>\<rparr>)
        ''https://example.com'' ''my-link''") simp
    then show ?thesis
      unfolding URLHandler_ShortenURL_def using e by simp
  qed
  from h1 h2 show ?thesis by simp
qed


lemma GetOriginalURL_hit:
  assumes "cache_Get getUp now (w_cache w) code = Inr v"
  shows "GetOriginalURL getUp dbFault setUp now w code =
     (Return v, w\<lparr>w_calls := w_calls w @ [CacheGetCall code]\<rparr>)"
  using assms by (simp add: GetOriginalURL_def Let_def)

lemma GetOriginalURL_miss:
  assumes "cache_Get getUp now (w_cache w) code = Inl err"
    and "find (\<lambda>r. ShortCode r = code) (urls (w_db w)) = Some row"
  shows "GetOriginalURL getUp None setUp now w code =
     (Return (OriginalURL row),
      w\<lparr>w_cache := (if setUp
                   then (w_cache w)\<lparr>client := (client (w_cache w))
                                     (code \<mapsto> (OriginalURL row, now + ttl (w_cache w)))\<rparr>
                   else w_cache w),
        w_calls := w_calls w @ [CacheGetCall code, GetByShortCodeCall code,
                            CacheSetCall code (OriginalURL row)]\<rparr>)"
  using assms
  by (simp add: GetOriginalURL_def Let_def GetByShortCode_def cache_Set_def cache_SetWithTTL_def)

lemma cache_Get_coherent:
  assumes "\<forall>v e. client c code = Some (v, e) \<longrightarrow> v = target"
  shows "cache_Get getUp now c code = Inr v \<Longrightarrow> v = target"
  using assms by (auto simp: cache_Get_def split: if_splits option.splits)

lemma GetOriginalURL_result:
  assumes "find (\<lambda>r. ShortCode r = code) (urls (w_db w)) = Some row"
    and "\<forall>v e. client (w_cache w) code = Some (v, e) \<longrightarrow> v = OriginalURL row"
  shows "fst (GetOriginalURL getUp None setUp now w code) = Return (OriginalURL row)"
proof (cases "cache_Get getUp now (w_cache w) code")
  case (Inl err)
  from GetOriginalURL_miss [OF Inl assms(1)] show ?thesis by simp
next
  case (Inr v)
  from cache_Get_coherent [OF assms(2) Inr] have "v = OriginalURL row" .
  with GetOriginalURL_hit [OF Inr] show ?thesis by simp
qed

lemma GetOriginalURL_keeps:
  assumes "find (\<lambda>r. ShortCode r = code) (urls (w_db w)) = Some row"
    and "\<forall>v e. client (w_cache w) code = Some (v, e) \<longrightarrow> v = OriginalURL row"
  shows "w_db (snd (GetOriginalURL getUp None setUp now w code)) = w_db w
       \<and> (\<forall>v e. client (w_cache (snd (GetOriginalURL getUp None setUp now w code))) code = Some (v, e)
             \<longrightarrow> v = OriginalURL row)"
proof (cases "cache_Get getUp now (w_cache w) code")
  case (Inl err)
  from GetOriginalURL_miss [OF Inl assms(1)] assms(2) show ?thesis by simp
next
  case (Inr v)
  from GetOriginalURL_hit [OF Inr] assms(2) show ?thesis by simp
qed

text \<open>
  C9. Let the database hold a row for the code and let the cache, if it has an entry for
  the code, hold the row's original URL. With the database answering, \<open>GetOriginalURL\<close>
  returns that URL whether the cache hits, misses or fails, and a second call on the
  state the first one leaves returns it again, whatever the cache does then. On a hit
  nothing but the cache is asked, whatever state the database is in. On a miss or a cache
  error the database is asked and the URL is written to the cache; when that write
  succeeds the cache holds the URL with a fresh time to live.
\<close>

theorem resolve_cache_aside:
  assumes "find (\<lambda>r. ShortCode r = code) (urls (w_db w)) = Some row"
    and "\<forall>v e. client (w_cache w) code = Some (v, e) \<longrightarrow> v = OriginalURL row"
  shows "fst (GetOriginalURL getUp None setUp now w code) = Return (OriginalURL row)
       \<and> fst (GetOriginalURL getUp' None setUp' now'
               (snd (GetOriginalURL getUp None setUp now w code)) code) = Return (OriginalURL row)
       \<and> (\<forall>v. cache_Get getUp now (w_cache w) code = Inr v \<longrightarrow>
             GetOriginalURL getUp dbFault setUp now w code =
               (Return (OriginalURL row), w\<lparr>w_calls := w_calls w @ [CacheGetCall code]\<rparr>))
       \<and> (\<forall>err. cache_Get getUp now (w_cache w) code = Inl err \<longrightarrow>
             GetOriginalURL getUp None setUp now w code =
               (Return (OriginalURL row),
                w\<lparr>w_cache := (if setUp
                             then (w_cache w)\<lparr>client := (client (w_cache w))
                                               (code \<mapsto> (OriginalURL row, now + ttl (w_cache w)))\<rparr>
                             else w_cache w),
                  w_calls := w_calls w @ [CacheGetCall code, GetByShortCodeCall code,
                                      CacheSetCall code (OriginalURL row)]\<rparr>))"
proof -
  let ?w = "snd (GetOriginalURL getUp None setUp now w code)"
  have first: "fst (GetOriginalURL getUp None setUp now w code) = Return (OriginalURL row)"
    by (rule GetOriginalURL_result [OF assms])
  from GetOriginalURL_keeps [OF assms, of getUp setUp now]
  have row': "find (\<lambda>r. ShortCode r = code) (urls (w_db ?w)) = Some row"
    and coh': "\<forall>v e. client (w_cache ?w) code = Some (v, e) \<longrightarrow> v = OriginalURL row"
    using assms(1) by simp_all
  have second: "fst (GetOriginalURL getUp' None setUp' now' ?w code) = Return (OriginalURL row)"
    by (rule GetOriginalURL_result [OF row' coh'])
  have hit: "GetOriginalURL getUp dbFault setUp now w code =
      (Return (OriginalURL row), w\<lparr>w_calls := w_calls w @ [CacheGetCall code]\<rparr>)"
    if "cache_Get getUp now (w_cache w) code = Inr v" for v
    using GetOriginalURL_hit [OF that] cache_Get_coherent [OF assms(2) that] by simp
  have miss: "GetOriginalURL getUp None setUp now w code =
      (Return (OriginalURL row),
       w\<lparr>w_cache := (if setUp
                    then (w_cache w)\<lparr>client := (client (w_cache w))
                                      (code \<mapsto> (OriginalURL row, now + ttl (w_cache w)))\<rparr>
                    else w_cache w),
         w_calls := w_calls w @ [CacheGetCall code, GetByShortCodeCall code,
                             CacheSetCall code (OriginalURL row)]\<rparr>)"
    if "cache_Get getUp now (w_cache w) code = Inl err" for err
    by (rule GetOriginalURL_miss [OF that assms(1)])
  from first second hit miss show ?thesis by blast
qed

text \<open>
  The row \<open>my-link\<close> with an empty cache: the first call misses and fills the cache, the
  second call, a day and more later with the cache unreachable, returns the same URL.
\<close>

theorem resolve_cache_aside_witness:
  "fst (GetOriginalURL True None True 10
          (emptyWorld\<lparr>w_db := emptyDB\<lparr>urls := [myLinkRow]\<rparr>\<rparr>) ''my-link'') =
     Return ''https://other.example''
   \<and> fst (GetOriginalURL False None False 100000
          (snd (GetOriginalURL True None True 10
                  (emptyWorld\<lparr>w_db := emptyDB\<lparr>urls := [myLinkRow]\<rparr>\<rparr>) ''my-link''))
          ''my-link'') =
     Return ''https://other.example''"
proof -
  let ?w = "emptyWorld\<lparr>w_db := emptyDB\<lparr>urls := [myLinkRow]\<rparr>\<rparr>"
  have a: "find (\<lambda>r. ShortCode r = ''my-link'') (urls (w_db ?w)) = Some myLinkRow"
    by (simp add: myLinkRow_def)
  have b: "\<forall>v e. client (w_cache ?w) ''my-link'' = Some (v, e) \<longrightarrow> v = OriginalURL myLinkRow"
    by (simp add: emptyWorld_def NewRedisCache_def)
  from resolve_cache_aside [OF a b, of True True 10 False False 100000]
  show ?thesis by (simp add: myLinkRow_def)
qed

end
